theory Spec2Isabelle
  imports Main
begin

section \<open>context-mod: configuration hydration, named entities, rule evaluation\<close>

text \<open>
  A shallow embedding of the parts of the repository that build the structured
  configuration (\<^verbatim>\<open>src/ConfigBuilder.ts\<close>), of the per-rule evaluation
  (\<^verbatim>\<open>Rule.run\<close>), of the author activity cache
  (\<^verbatim>\<open>SubredditResources.getAuthorActivities\<close>) and of the
  \<^verbatim>\<open>ActionPremise\<close> entity.

  Conventions. An exception is a value \<open>Inl e\<close> of a sum type; a JavaScript
  \<^verbatim>\<open>Map\<close> is an association list in insertion order; an optional property is an
  \<open>option\<close>; payloads the code only copies or compares (criteria, rule configuration) are type
  variables, and deep structural equality on them is equality. Library functions the code calls
  (\<^verbatim>\<open>object-hash\<close>, the live fetchers) are parameters of the definitions.
\<close>

subsection \<open>Errors of ConfigBuilder\<close>

text \<open>The text of a \<^verbatim>\<open>CMError\<close> thrown by \<^verbatim>\<open>hydrateConfig\<close>, with the numbers it
  interpolates:
  \<^item> \<open>RunNotFetched r\<close>: \<^verbatim>\<open>Could not fetch or validate Run #r\<close>;
  \<^item> \<open>CheckNotFetched c r\<close>:
    \<^verbatim>\<open>Could not fetch or validate Check Config Fragment #c in Run #r\<close>;
  \<^item> \<open>RuleNotFetched n c\<close>:
    \<^verbatim>\<open>Rule Config Fragment #n in Check #c could not be fetched\<close>;
  \<^item> \<open>ActionNotFetched n c\<close>:
    \<^verbatim>\<open>Action Config Fragment #n in Check #c could not be fetched\<close>.\<close>

datatype cmMessage =
    RunNotFetched nat
  | CheckNotFetched nat nat
  | RuleNotFetched nat nat
  | ActionNotFetched nat nat

text \<open>Every exception of the embedded functions:
  \<^item> \<open>FragmentPathNotUrl path\<close>: the \<^verbatim>\<open>ConfigParseError\<close>
    \<^verbatim>\<open>Could not detect Config Fragment path as a valid URL Resource ... -- path\<close>;
  \<^item> \<open>BothChecksAndRuns\<close>: the \<^verbatim>\<open>Error\<close>
    \<^verbatim>\<open>Subreddit configuration cannot contain both 'checks' and 'runs' at top-level.\<close>;
  \<^item> \<open>RunFragmentNotRecognized r given\<close>: the \<^verbatim>\<open>ConfigParseError\<close>
    \<^verbatim>\<open>Run Config Fragment #r was not in a recognized Config Fragment format. Given: given\<close>;
  \<^item> \<open>CheckNotRecognized c r given\<close>: the \<^verbatim>\<open>ConfigParseError\<close>
    \<^verbatim>\<open>Check #c in Run #r was not in a recognized include format. Given: given\<close>;
  \<^item> \<open>CMError m cause\<close>: a \<^verbatim>\<open>CMError\<close> with its cause;
  \<^item> \<open>LoggedError\<close>: \<^verbatim>\<open>Config schema validity failure\<close>, of \<^verbatim>\<open>validateJson\<close>;
  \<^item> \<open>RuleNameConflict name\<close>:
    \<^verbatim>\<open>Rule names must be unique (case-insensitive). Conflicting name: name\<close>;
  \<^item> \<open>FilterNameConflict filterName name\<close>:
    \<^verbatim>\<open>names for filterName filters must be unique (case-insensitive). Conflicting name name\<close>;
  \<^item> \<open>NoNamedCriteria filterName x\<close>:
    \<^verbatim>\<open>No named filterName criteria with the name "x"\<close>;
  \<^item> \<open>ResourceError text\<close>: whatever the resource raises while it fetches or parses;
  \<^item> \<open>TypeError\<close>: the runtime's error for a string operation on \<^verbatim>\<open>undefined\<close>.\<close>

datatype error =
    FragmentPathNotUrl string
  | BothChecksAndRuns
  | RunFragmentNotRecognized nat string
  | CheckNotRecognized nat nat string
  | CMError cmMessage error
  | LoggedError
  | RuleNameConflict string
  | FilterNameConflict string string
  | NoNamedCriteria string string
  | ResourceError string
  | TypeError

subsection \<open>ActionPremise\<close>

text \<open>\<^verbatim>\<open>AuthorOptions\<close>: the \<^verbatim>\<open>include\<close>, \<^verbatim>\<open>exclude\<close> and
  \<^verbatim>\<open>excludeCondition\<close> properties, each optional.\<close>

record 'a authorOptions =
  ao_include :: "'a list option"
  ao_exclude :: "'a list option"
  ao_excludeCondition :: "string option"

text \<open>\<^verbatim>\<open>ObjectPremise\<close>: what \<^verbatim>\<open>getPremise()\<close> returns.\<close>

record ('c, 'a, 'i) objectPremise =
  op_kind :: string
  op_config :: 'c
  op_authorIs :: "'a authorOptions option"
  op_itemIs :: "'i list option"

text \<open>\<^verbatim>\<open>ActionPremiseOptions\<close>. The \<^verbatim>\<open>ActionType\<close> and
  \<^verbatim>\<open>ManagerEntity\<close> entities are only stored, and stand here as their names.\<close>

record ('c, 'a, 'i) actionPremiseOptions =
  apo_kind :: string
  apo_config :: "('c, 'a, 'i) objectPremise"
  apo_active :: "bool option"
  apo_manager :: string
  apo_name :: "string option"

text \<open>The values \<^verbatim>\<open>objectHash.sha1\<close> is applied to in the constructor.\<close>

datatype ('c, 'a, 'i) hashed =
    HPremise "('c, 'a, 'i) objectPremise"
  | HItemIs "'i list"
  | HAuthorIs "'a authorOptions"

text \<open>The entity's columns; one that the constructor has not assigned is \<open>None\<close>.\<close>

record ('c, 'a, 'i) actionPremise =
  ap_name :: "string option"
  ap_kind :: "string option"
  ap_config :: "'c option"
  ap_configHash :: "string option"
  ap_active :: "bool option"
  ap_manager :: "string option"
  itemIsConfig :: "'i list option"
  itemIsConfigHash :: "string option"
  authorIsConfig :: "'a authorOptions option"
  authorIsConfigHash :: "string option"

definition emptyActionPremise :: "('c, 'a, 'i) actionPremise" where
  "emptyActionPremise =
     \<lparr>ap_name = None, ap_kind = None, ap_config = None, ap_configHash = None,
      ap_active = None, ap_manager = None, itemIsConfig = None, itemIsConfigHash = None,
      authorIsConfig = None, authorIsConfigHash = None\<rparr>"

text \<open>The destructuring defaults \<^verbatim>\<open>authorIs: {include = [], exclude = []} = {}\<close> and
  \<^verbatim>\<open>itemIs = []\<close>.\<close>

definition includeOf :: "'a authorOptions option \<Rightarrow> 'a list" where
  "includeOf a = (case a of None \<Rightarrow> [] | Some o' \<Rightarrow> (case ao_include o' of None \<Rightarrow> [] | Some xs \<Rightarrow> xs))"

definition excludeOf :: "'a authorOptions option \<Rightarrow> 'a list" where
  "excludeOf a = (case a of None \<Rightarrow> [] | Some o' \<Rightarrow> (case ao_exclude o' of None \<Rightarrow> [] | Some xs \<Rightarrow> xs))"

definition excludeConditionOf :: "'a authorOptions option \<Rightarrow> string option" where
  "excludeConditionOf a = (case a of None \<Rightarrow> None | Some o' \<Rightarrow> ao_excludeCondition o')"

definition itemIsOf :: "'i list option \<Rightarrow> 'i list" where
  "itemIsOf i = (case i of None \<Rightarrow> [] | Some xs \<Rightarrow> xs)"

text \<open>Step 1 of the constructor: the unconditional assignments.\<close>

definition apBase ::
  "(('c, 'a, 'i) hashed \<Rightarrow> string) \<Rightarrow> ('c, 'a, 'i) actionPremiseOptions \<Rightarrow> ('c, 'a, 'i) actionPremise" where
  "apBase sha1 d =
     emptyActionPremise
       \<lparr>ap_kind := Some (apo_kind d),
        ap_config := Some (op_config (apo_config d)),
        ap_active := Some (case apo_active d of None \<Rightarrow> True | Some b \<Rightarrow> b),
        ap_configHash := Some (sha1 (HPremise (apo_config d))),
        ap_manager := Some (apo_manager d),
        ap_name := apo_name d\<rparr>"

text \<open>Step 2: \<^verbatim>\<open>if (itemIs.length > 0)\<close>.\<close>

definition apItemIs ::
  "(('c, 'a, 'i) hashed \<Rightarrow> string) \<Rightarrow> 'i list \<Rightarrow> ('c, 'a, 'i) actionPremise \<Rightarrow> ('c, 'a, 'i) actionPremise" where
  "apItemIs sha1 items p =
     (if 0 < length items
      then p\<lparr>itemIsConfig := Some items, itemIsConfigHash := Some (sha1 (HItemIs items))\<rparr>
      else p)"

text \<open>Step 3: \<^verbatim>\<open>if (include.length > 0 || exclude.length > 0)\<close>; the hash is taken of the
  \<^verbatim>\<open>authorIsConfig\<close> just stored.\<close>

definition apAuthorIs ::
  "(('c, 'a, 'i) hashed \<Rightarrow> string) \<Rightarrow> 'a authorOptions option \<Rightarrow> ('c, 'a, 'i) actionPremise \<Rightarrow> ('c, 'a, 'i) actionPremise" where
  "apAuthorIs sha1 a p =
     (let incl = includeOf a; excl = excludeOf a in
      if 0 < length incl \<or> 0 < length excl
      then (let cfg = (if 0 < length incl
                       then \<lparr>ao_include = Some incl, ao_exclude = None, ao_excludeCondition = None\<rparr>
                       else \<lparr>ao_include = None, ao_exclude = Some excl,
                             ao_excludeCondition = excludeConditionOf a\<rparr>)
            in p\<lparr>authorIsConfig := Some cfg, authorIsConfigHash := Some (sha1 (HAuthorIs cfg))\<rparr>)
      else p)"

text \<open>\<^verbatim>\<open>new ActionPremise(data)\<close>; \<open>None\<close> is the call without an argument.\<close>

definition ActionPremise ::
  "(('c, 'a, 'i) hashed \<Rightarrow> string) \<Rightarrow> ('c, 'a, 'i) actionPremiseOptions option \<Rightarrow> ('c, 'a, 'i) actionPremise" where
  "ActionPremise sha1 data =
     (case data of
        None \<Rightarrow> emptyActionPremise
      | Some d \<Rightarrow>
          apAuthorIs sha1 (op_authorIs (apo_config d))
            (apItemIs sha1 (itemIsOf (op_itemIs (apo_config d))) (apBase sha1 d)))"

subsection \<open>SubredditResources: the author activity cache\<close>

text \<open>The module-level \<^verbatim>\<open>SubredditResourcesManager\<close> singleton, as far as the
  constructor reads it.\<close>

record resourcesManager =
  mgr_authorTTL :: int
  mgr_enabled :: bool

text \<open>\<^verbatim>\<open>SubredditCacheOptions\<close>, as far as the constructor reads it.\<close>

record subredditCacheOptions =
  sco_enabled :: "bool option"
  sco_authorTTL :: "int option"
  sco_wikiTTL :: "int option"

record subredditResources =
  enabled :: bool
  authorTTL :: int
  useSubredditAuthorCache :: bool
  wikiTTL :: int
  sr_name :: string

text \<open>The constructor: \<^verbatim>\<open>enabled\<close> defaults to true and
  \<^verbatim>\<open>wikiTTL\<close> to 300000; an \<^verbatim>\<open>authorTTL\<close> of the subreddit's own
  switches \<^verbatim>\<open>useSubredditAuthorCache\<close> on.\<close>

definition SubredditResources ::
  "resourcesManager \<Rightarrow> string \<Rightarrow> subredditCacheOptions \<Rightarrow> subredditResources" where
  "SubredditResources manager nm options =
     \<lparr>enabled = (if mgr_enabled manager
                 then (case sco_enabled options of None \<Rightarrow> True | Some b \<Rightarrow> b) else False),
      authorTTL = (case sco_authorTTL options of None \<Rightarrow> mgr_authorTTL manager | Some t \<Rightarrow> t),
      useSubredditAuthorCache = (case sco_authorTTL options of None \<Rightarrow> False | Some t \<Rightarrow> True),
      wikiTTL = (case sco_wikiTTL options of None \<Rightarrow> 300000 | Some t \<Rightarrow> t),
      sr_name = nm\<rparr>"

text \<open>The \<^verbatim>\<open>memory-cache\<close> store, shared by every instance: a key holds a value and
  the time it expires at. \<^verbatim>\<open>get\<close> answers \<^verbatim>\<open>null\<close> (\<open>None\<close>) for a
  key that is absent or expired; \<^verbatim>\<open>put\<close> stores the value until \<open>now + time\<close>.\<close>

type_synonym 'v memoryCache = "string \<Rightarrow> ('v \<times> int) option"

definition cache_get :: "'v memoryCache \<Rightarrow> int \<Rightarrow> string \<Rightarrow> 'v option" where
  "cache_get c now k =
     (case c k of None \<Rightarrow> None | Some (v, expire) \<Rightarrow> if now \<le> expire then Some v else None)"

definition cache_put :: "'v memoryCache \<Rightarrow> int \<Rightarrow> string \<Rightarrow> 'v \<Rightarrow> int \<Rightarrow> 'v memoryCache" where
  "cache_put c now k v time = c(k \<mapsto> (v, now + time))"

text \<open>What a call does to the outside: cache reads and writes by key, and live fetches by
  user name.\<close>

datatype cacheEvent = CacheGet string | CachePut string | LiveFetch string

text \<open>The object \<^verbatim>\<open>objectHash.sha1\<close> is applied to: the spread options, the user name,
  and the \<^verbatim>\<open>subreddit\<close> property when it has been set.\<close>

record 'o authorHashObj =
  ho_options :: 'o
  ho_userName :: string
  ho_subreddit :: "string option"

record redditUser =
  user_name :: string

text \<open>\<^verbatim>\<open>getAuthorActivities(user, options)\<close>. The parameters are
  \<^verbatim>\<open>objectHash.sha1\<close>, the live fetch of \<^verbatim>\<open>SnoowrapUtils\<close> (which may
  raise), the instance, the current time and the cache; the result comes with the cache afterwards
  and the events of the call. \<^verbatim>\<open>hashObj\<close> receives the subreddit name, and the
  hash is then taken of a fresh \<^verbatim>\<open>{...options, userName}\<close>.\<close>

definition getAuthorActivities ::
  "('o authorHashObj \<Rightarrow> string) \<Rightarrow> (redditUser \<Rightarrow> 'o \<Rightarrow> 'e + 'v) \<Rightarrow> subredditResources \<Rightarrow> int \<Rightarrow>
   redditUser \<Rightarrow> 'o \<Rightarrow> 'v memoryCache \<Rightarrow> ('e + 'v) \<times> 'v memoryCache \<times> cacheEvent list" where
  "getAuthorActivities sha1 fetchLive this now user options c =
     (let useCache = (enabled this \<and> 0 < authorTTL this);
          userName = user_name user;
          hashObj = \<lparr>ho_options = options, ho_userName = userName,
                     ho_subreddit = (if useSubredditAuthorCache this then Some (sr_name this) else None)\<rparr>;
          hash = sha1 \<lparr>ho_options = options, ho_userName = userName, ho_subreddit = None\<rparr>
      in case (if useCache then cache_get c now hash else None) of
           Some cacheVal \<Rightarrow> (Inr cacheVal, c, [CacheGet hash])
         | None \<Rightarrow>
             (case fetchLive user options of
                Inl err \<Rightarrow> (Inl err, c, (if useCache then [CacheGet hash] else []) @ [LiveFetch userName])
              | Inr items \<Rightarrow>
                  if useCache
                  then (Inr items, cache_put c now hash items (authorTTL this),
                        [CacheGet hash, LiveFetch userName, CachePut hash])
                  else (Inr items, c, [LiveFetch userName])))"

subsection \<open>Rule.run\<close>

text \<open>The columns of \<^verbatim>\<open>RuleResultEntity\<close> that \<^verbatim>\<open>Rule.run\<close> assigns. The premise
  entity is a type variable.\<close>

record ('p, 'd, 'f) ruleResultEntity =
  premise :: 'p
  triggered :: "bool option"
  result :: "string option"
  fromCache :: "bool option"
  data :: "'d option"
  rr_itemIs :: "'f option"
  rr_authorIs :: "'f option"

text \<open>Modelled from the spec: the class \<^verbatim>\<open>RuleResultEntity\<close> is not among the sources.
  \<^verbatim>\<open>new RuleResultEntity({premise})\<close> sets the premise and leaves every other column
  unset.\<close>

definition RuleResultEntity :: "'p \<Rightarrow> ('p, 'd, 'f) ruleResultEntity" where
  "RuleResultEntity p =
     \<lparr>premise = p, triggered = None, result = None, fromCache = None, data = None,
      rr_itemIs = None, rr_authorIs = None\<rparr>"

text \<open>Modelled from the spec: \<^verbatim>\<open>findResultByPremise\<close> of \<^verbatim>\<open>util\<close> is not among the
  sources. If an earlier rule execution of the pass has produced a result for an identical premise
  hash, the first such result is returned verbatim with \<^verbatim>\<open>fromCache=true\<close>; otherwise
  the answer is \<^verbatim>\<open>undefined\<close>. The hash of a premise entity is a parameter.\<close>

definition findResultByPremise ::
  "('p \<Rightarrow> 'h) \<Rightarrow> 'p \<Rightarrow> ('p, 'd, 'f) ruleResultEntity list \<Rightarrow> ('p, 'd, 'f) ruleResultEntity option" where
  "findResultByPremise premiseHash p results =
     (case find (\<lambda>x. premiseHash (premise x) = premiseHash p) results of
        None \<Rightarrow> None
      | Some x \<Rightarrow> Some (x\<lparr>fromCache := Some True\<rparr>))"

text \<open>The fields of a rule that \<^verbatim>\<open>run\<close> reads.\<close>

record ('p, 'i, 'a) rule =
  rulePremiseEntity :: 'p
  itemIs :: "'i list"
  authorIs :: 'a

text \<open>What \<^verbatim>\<open>process\<close> returns beside the flag: the \<^verbatim>\<open>result\<close> and
  \<^verbatim>\<open>data\<close> of the plain rule result.\<close>

record 'd plainRuleResult =
  pr_result :: "string option"
  pr_data :: "'d option"

text \<open>The calls \<^verbatim>\<open>run\<close> makes, in the order it makes them.\<close>

datatype runEvent = CacheLookup | ItemFilterEvaluated | AuthorFilterEvaluated | ProcessInvoked

definition itemIsNotPassed :: string where
  "itemIsNotPassed = ''Item did not pass '' @ [CHR 0x27] @ ''itemIs'' @ [CHR 0x27] @ '' test''"

definition authorNotMatched :: "string option \<Rightarrow> string" where
  "authorNotMatched authFilterType =
     (case authFilterType of None \<Rightarrow> ''undefined'' | Some t \<Rightarrow> t) @ '' author criteria not matched''"

text \<open>\<^verbatim>\<open>run(item, existingResults, options)\<close>. \<^verbatim>\<open>checkItemFilter\<close>,
  \<^verbatim>\<open>checkAuthorFilter\<close> (both of another module) and the abstract \<^verbatim>\<open>process\<close> are
  parameters, each of which may raise; both \<^verbatim>\<open>catch\<close> blocks log and rethrow. The result
  pairs what the promise settles to with the calls made.\<close>

definition run ::
  "('p \<Rightarrow> 'h) \<Rightarrow> ('it \<Rightarrow> 'i list \<Rightarrow> 'e + bool \<times> string option \<times> 'f) \<Rightarrow>
   ('it \<Rightarrow> 'a \<Rightarrow> 'e + bool \<times> string option \<times> 'f) \<Rightarrow> ('it \<Rightarrow> 'e + bool \<times> 'd plainRuleResult) \<Rightarrow>
   ('p, 'i, 'a) rule \<Rightarrow> 'it \<Rightarrow> ('p, 'd, 'f) ruleResultEntity list \<Rightarrow>
   ('e + bool option \<times> ('p, 'd, 'f) ruleResultEntity) \<times> runEvent list" where
  "run premiseHash checkItemFilter checkAuthorFilter process this item existingResults =
     (let res = RuleResultEntity (rulePremiseEntity this) in
      case findResultByPremise premiseHash (rulePremiseEntity this) existingResults of
        Some existingResult \<Rightarrow> (Inr (triggered existingResult, existingResult), [CacheLookup])
      | None \<Rightarrow>
          (case checkItemFilter item (itemIs this) of
             Inl err \<Rightarrow> (Inl err, [CacheLookup, ItemFilterEvaluated])
           | Inr (itemPass, itemFilterType, itemFilterResults) \<Rightarrow>
               (let res1 = (if 0 < length (itemIs this)
                            then res\<lparr>rr_itemIs := Some itemFilterResults\<rparr> else res) in
                if \<not> itemPass
                then (Inr (None, res1\<lparr>result := Some itemIsNotPassed\<rparr>),
                      [CacheLookup, ItemFilterEvaluated])
                else
                  (case checkAuthorFilter item (authorIs this) of
                     Inl err \<Rightarrow> (Inl err, [CacheLookup, ItemFilterEvaluated, AuthorFilterEvaluated])
                   | Inr (authFilterResult, authFilterType, authFilterRes) \<Rightarrow>
                       (let res2 = (case authFilterType of
                                      None \<Rightarrow> res1
                                    | Some t \<Rightarrow> res1\<lparr>rr_authorIs := Some authFilterRes\<rparr>) in
                        if \<not> authFilterResult
                        then (Inr (None, res2\<lparr>result := Some (authorNotMatched authFilterType)\<rparr>),
                              [CacheLookup, ItemFilterEvaluated, AuthorFilterEvaluated])
                        else
                          (case process item of
                             Inl err \<Rightarrow>
                               (Inl err, [CacheLookup, ItemFilterEvaluated, AuthorFilterEvaluated,
                                          ProcessInvoked])
                           | Inr (trig, plainRuleResult) \<Rightarrow>
                               (Inr (Some trig,
                                     res2\<lparr>triggered := Some trig,
                                          result := pr_result plainRuleResult,
                                          fromCache := Some False,
                                          data := pr_data plainRuleResult\<rparr>),
                                [CacheLookup, ItemFilterEvaluated, AuthorFilterEvaluated,
                                 ProcessInvoked])))))))"

subsection \<open>Configuration shapes\<close>

text \<open>\<^verbatim>\<open>NamedCriteria<T>\<close>: criteria with an optional name.\<close>

record 'c namedCriteria =
  nc_name :: "string option"
  criteria :: 'c

text \<open>\<^verbatim>\<open>MaybeAnonymousOrStringCriteria<T>\<close>: a string (the name of a criteria), a
  \<^verbatim>\<open>NamedCriteria\<close> object (what \<^verbatim>\<open>asNamedCriteria\<close> recognises), or the bare
  criteria.\<close>

datatype 'c maybeCriteria = CritStr string | CritNamed "'c namedCriteria" | CritAnon 'c

text \<open>\<^verbatim>\<open>MinimalOrFullFilterJson<T>\<close>: an array of criteria, or an object with optional
  \<^verbatim>\<open>include\<close> and \<^verbatim>\<open>exclude\<close> arrays.\<close>

record 'x filterOptions =
  fo_include :: "'x list option"
  fo_exclude :: "'x list option"

datatype 'x filter = FilterArray "'x list" | FilterObject "'x filterOptions"

type_synonym 'c filterJson = "'c maybeCriteria filter"

text \<open>\<^verbatim>\<open>RunnableBaseJson\<close>: the two filter properties runs, checks, rules and actions
  share.\<close>

record 'c runnableBaseJson =
  authorIsJson :: "'c filterJson option"
  itemIsJson :: "'c filterJson option"

text \<open>\<^verbatim>\<open>IncludesData\<close>: the descriptor of a fragment held elsewhere.\<close>

record includesData =
  path :: string

text \<open>An element of a hydrated list is a string or an object; what
  \<^verbatim>\<open>hydrateConfigFragment\<close> is given is a string, an \<^verbatim>\<open>IncludesData\<close>, another
  object, or an array of elements.\<close>

datatype 'a hval = HStr string | HObj 'a

datatype 'a frag = FStr string | FInc includesData | FObj 'a | FArr "'a hval list"

text \<open>What the resource resolves a fragment to: one element or an array of them.\<close>

datatype 'a fetched = Single "'a hval" | Many "'a hval list"

text \<open>A rule object (it has a \<^verbatim>\<open>kind\<close>), a rule set (it has \<^verbatim>\<open>rules\<close>), an action,
  a check, a run and the document. The type variables \<open>'r\<close>, \<open>'a\<close>, \<open>'k\<close>, \<open>'n\<close> are the types of
  the children: fragments before hydration, elements after it.\<close>

record 'c ruleConfig =
  rule_name :: "string option"
  rule_kind :: string
  rule_authorIs :: "'c filterJson option"
  rule_itemIs :: "'c filterJson option"
  rule_config :: 'c

record 'r ruleSetConfig =
  rs_rules :: "'r list"
  rs_condition :: "string option"

datatype ('c, 'r) ruleOrSet = RuleObj "'c ruleConfig" | RuleSetObj "'r ruleSetConfig"

record 'c actionConfig =
  action_name :: "string option"
  action_kind :: string
  action_authorIs :: "'c filterJson option"
  action_itemIs :: "'c filterJson option"
  action_config :: 'c

record ('c, 'r, 'a) checkConfig =
  check_name :: string
  check_kind :: string
  check_rules :: "'r list option"
  check_actions :: "'a list option"
  check_authorIs :: "'c filterJson option"
  check_itemIs :: "'c filterJson option"

record 'c filterCriteriaDefaultsJson =
  fcd_authorIs :: "'c filterJson option"
  fcd_itemIs :: "'c filterJson option"

record ('c, 'k) runConfig =
  run_name :: string
  run_checks :: "'k list"
  run_authorIs :: "'c filterJson option"
  run_itemIs :: "'c filterJson option"
  run_filterCriteriaDefaults :: "'c filterCriteriaDefaultsJson option"

type_synonym 'c ruleData = "('c, 'c ruleConfig frag) ruleOrSet"
type_synonym 'c ruleHydrated = "('c, 'c ruleConfig hval) ruleOrSet"
type_synonym 'c checkData = "('c, 'c ruleData frag, 'c actionConfig frag) checkConfig"
type_synonym 'c checkHydrated = "('c, 'c ruleHydrated hval, 'c actionConfig hval) checkConfig"
type_synonym 'c runData = "('c, 'c checkData frag) runConfig"
type_synonym 'c runHydrated = "('c, 'c checkHydrated) runConfig"

text \<open>\<^verbatim>\<open>SubredditConfigData\<close> and \<^verbatim>\<open>SubredditConfigHydratedData\<close>.\<close>

record 'c subredditConfigData =
  cfg_runs :: "'c runData frag list option"
  cfg_checks :: "'c checkData frag list option"
  cfg_filterCriteriaDefaults :: "'c filterCriteriaDefaultsJson option"

record 'c subredditConfigHydratedData =
  runs :: "'c runHydrated list option"
  filterCriteriaDefaults :: "'c filterCriteriaDefaultsJson option"

subsection \<open>Hydration\<close>

text \<open>Hydration fetches and validates as it goes. A computation takes the log of what has been
  done so far and returns its outcome with the log afterwards; an exception ends it.\<close>

datatype hydrationEvent = Fetched string | ValidatorInvoked bool

type_synonym 'a hydration = "hydrationEvent list \<Rightarrow> (error + 'a) \<times> hydrationEvent list"

definition returnH :: "'a \<Rightarrow> 'a hydration" where
  "returnH a = (\<lambda>log. (Inr a, log))"

definition throwH :: "error \<Rightarrow> 'a hydration" where
  "throwH e = (\<lambda>log. (Inl e, log))"

definition bindH :: "'a hydration \<Rightarrow> ('a \<Rightarrow> 'b hydration) \<Rightarrow> 'b hydration" where
  "bindH m f = (\<lambda>log. case m log of (Inl e, log') \<Rightarrow> (Inl e, log') | (Inr a, log') \<Rightarrow> f a log')"

text \<open>\<^verbatim>\<open>try { m } catch (e) { throw h(e) }\<close>.\<close>

definition rethrowH :: "'a hydration \<Rightarrow> (error \<Rightarrow> error) \<Rightarrow> 'a hydration" where
  "rethrowH m h = (\<lambda>log. case m log of (Inl e, log') \<Rightarrow> (Inl (h e), log') | (Inr a, log') \<Rightarrow> (Inr a, log'))"

text \<open>\<^verbatim>\<open>for (const x of xs) { ... }\<close> over the variables the body assigns.\<close>

fun forEachH :: "('x \<Rightarrow> 's \<Rightarrow> 's hydration) \<Rightarrow> 'x list \<Rightarrow> 's \<Rightarrow> 's hydration" where
  "forEachH body [] s = returnH s"
| "forEachH body (x # xs) s = bindH (body x s) (forEachH body xs)"

text \<open>\<^verbatim>\<open>ConfigFragmentValidationFunc\<close>: \<^verbatim>\<open>(data, fetched) => boolean\<close>, which may
  raise.\<close>

type_synonym 'a validationFunc = "'a fetched \<Rightarrow> bool \<Rightarrow> error + bool"

text \<open>\<^verbatim>\<open>resource.getConfigFragment\<close>, at the type of one kind of fragment.\<close>

type_synonym 'a fragmentResource = "includesData \<Rightarrow> 'a validationFunc option \<Rightarrow> 'a fetched hydration"

text \<open>Modelled from the spec: \<^verbatim>\<open>SubredditResources.getConfigFragment\<close> is not among the
  sources. For a remote reference it fetches the raw text and parses it (\<open>fetchParse\<close>, which may
  fail), then invokes \<^verbatim>\<open>validate(data, fetched=true)\<close>, which may raise; the parsed value
  is the result.\<close>

definition getConfigFragment :: "(includesData \<Rightarrow> error + 'a fetched) \<Rightarrow> 'a fragmentResource" where
  "getConfigFragment fetchParse includes validateFunc =
     (\<lambda>log. case fetchParse includes of
        Inl e \<Rightarrow> (Inl e, log @ [Fetched (path includes)])
      | Inr d \<Rightarrow>
          (case validateFunc of
             None \<Rightarrow> (Inr d, log @ [Fetched (path includes)])
           | Some validate \<Rightarrow>
               (case validate d True of
                  Inl e \<Rightarrow> (Inl e, log @ [Fetched (path includes), ValidatorInvoked True])
                | Inr ok \<Rightarrow> (Inr d, log @ [Fetched (path includes), ValidatorInvoked True]))))"

definition fetchedAsList :: "'a fetched \<Rightarrow> 'a hval list" where
  "fetchedAsList resolvedFragment =
     (case resolvedFragment of Many xs \<Rightarrow> xs | Single x \<Rightarrow> [x])"

text \<open>The end of \<^verbatim>\<open>hydrateConfigFragment\<close>, reached when \<^verbatim>\<open>includes\<close> is defined:
  the resource resolves the fragment, and the validator goes to the resource with it.\<close>

definition resolveIncludes ::
  "'a fragmentResource \<Rightarrow> 'a validationFunc option \<Rightarrow> includesData \<Rightarrow> 'a hval list hydration" where
  "resolveIncludes resource validateFunc includes =
     bindH (resource includes validateFunc)
       (\<lambda>resolvedFragment. returnH (fetchedAsList resolvedFragment))"

text \<open>\<^verbatim>\<open>hydrateConfigFragment(val, resource, validateFunc)\<close>, by the shape of \<^verbatim>\<open>val\<close>.
  A string that \<^verbatim>\<open>parseUrlContext\<close> recognises becomes the path of an
  \<^verbatim>\<open>includes\<close>, any other string is a literal; an \<^verbatim>\<open>IncludesData\<close> whose path
  is not recognised raises; an array is returned as it is and any other value as a singleton.
  \<^verbatim>\<open>parseUrlContext\<close> (of \<^verbatim>\<open>util\<close>) is a parameter; only whether it answers
  \<^verbatim>\<open>undefined\<close> is read.\<close>

definition hydrateConfigFragment ::
  "(string \<Rightarrow> 'u option) \<Rightarrow> 'a fragmentResource \<Rightarrow> 'a validationFunc option \<Rightarrow> 'a frag \<Rightarrow>
   'a hval list hydration" where
  "hydrateConfigFragment parseUrlContext resource validateFunc val =
     (case val of
        FStr s \<Rightarrow>
          (case parseUrlContext s of
             Some strContextResult \<Rightarrow> resolveIncludes resource validateFunc \<lparr>path = s\<rparr>
           | None \<Rightarrow> returnH [HStr s])
      | FInc i \<Rightarrow>
          (case parseUrlContext (path i) of
             None \<Rightarrow> throwH (FragmentPathNotUrl (path i))
           | Some strContextResult \<Rightarrow> resolveIncludes resource validateFunc i)
      | FArr xs \<Rightarrow> returnH xs
      | FObj a \<Rightarrow> returnH [HObj a])"

text \<open>\<^verbatim>\<open>validateJson(config, schema, logger)\<close>; whether the schema accepts a value is a
  parameter.\<close>

definition validateJson :: "('a \<Rightarrow> bool) \<Rightarrow> 'a \<Rightarrow> error + 'a" where
  "validateJson schema config = (if schema config then Inr config else Inl LoggedError)"

fun validateEach :: "('a \<Rightarrow> bool) \<Rightarrow> 'a list \<Rightarrow> error + bool" where
  "validateEach schema [] = Inr True"
| "validateEach schema (x # xs) =
     (case validateJson schema x of Inl e \<Rightarrow> Inl e | Inr v \<Rightarrow> validateEach schema xs)"

text \<open>The callback \<^verbatim>\<open>hydrateConfig\<close> passes for runs and for checks.\<close>

definition fragmentValidator :: "('a hval \<Rightarrow> bool) \<Rightarrow> 'a validationFunc" where
  "fragmentValidator schema dat fetched =
     (if fetched
      then (case dat of
              Many xs \<Rightarrow> validateEach schema xs
            | Single x \<Rightarrow> (case validateJson schema x of Inl e \<Rightarrow> Inl e | Inr v \<Rightarrow> Inr True))
      else Inr True)"

text \<open>What \<^verbatim>\<open>hydrateConfig\<close> is given beside the document: \<^verbatim>\<open>parseUrlContext\<close>,
  the resource at the type of each kind of fragment, and the three schemas.\<close>

record ('c, 'u) hydrationEnv =
  parseUrlContext :: "string \<Rightarrow> 'u option"
  runResource :: "'c runData fragmentResource"
  checkResource :: "'c checkData fragmentResource"
  ruleResource :: "'c ruleData fragmentResource"
  ruleSetRuleResource :: "'c ruleConfig fragmentResource"
  actionResource :: "'c actionConfig fragmentResource"
  runSchema :: "'c runData hval \<Rightarrow> bool"
  checkSchema :: "'c checkData hval \<Rightarrow> bool"
  appSchema :: "'c subredditConfigHydratedData \<Rightarrow> bool"

text \<open>The rules of a rule set: every fragment is resolved, with no \<^verbatim>\<open>try\<close> around it,
  and its elements are pushed.\<close>

definition hydrateRuleSetRules ::
  "('c, 'u) hydrationEnv \<Rightarrow> 'c ruleConfig frag list \<Rightarrow> 'c ruleConfig hval list hydration" where
  "hydrateRuleSetRules E rsrs =
     forEachH (\<lambda>rsr hydratedRulesetRules.
         bindH (hydrateConfigFragment (parseUrlContext E) (ruleSetRuleResource E) None rsr)
           (\<lambda>hydratedRuleSetRuleArr. returnH (hydratedRulesetRules @ hydratedRuleSetRuleArr)))
       rsrs []"

text \<open>One element of a resolved rule fragment; the state is \<^verbatim>\<open>ruleIndex\<close> and
  \<^verbatim>\<open>hydratedRulesOrSets\<close>.\<close>

definition hydrateRuleElement ::
  "('c, 'u) hydrationEnv \<Rightarrow> 'c ruleData hval \<Rightarrow> nat \<times> 'c ruleHydrated hval list \<Rightarrow>
   (nat \<times> 'c ruleHydrated hval list) hydration" where
  "hydrateRuleElement E hydratedRuleOrSet st =
     (case st of (ruleIndex, hydratedRulesOrSets) \<Rightarrow>
        (case hydratedRuleOrSet of
           HStr s \<Rightarrow> returnH (ruleIndex + 1, hydratedRulesOrSets @ [HStr s])
         | HObj (RuleSetObj rs) \<Rightarrow>
             bindH (hydrateRuleSetRules E (rs_rules rs))
               (\<lambda>hydratedRulesetRules.
                  returnH (ruleIndex + 1,
                    hydratedRulesOrSets @
                      [HObj (RuleSetObj \<lparr>rs_rules = hydratedRulesetRules,
                                         rs_condition = rs_condition rs\<rparr>)]))
         | HObj (RuleObj r) \<Rightarrow> returnH (ruleIndex + 1, hydratedRulesOrSets @ [HObj (RuleObj r)])))"

text \<open>One entry of \<^verbatim>\<open>rules\<close>: the fragment is resolved inside the \<^verbatim>\<open>try\<close>, then its
  elements are walked.\<close>

definition hydrateRuleFragment ::
  "('c, 'u) hydrationEnv \<Rightarrow> nat \<Rightarrow> 'c ruleData frag \<Rightarrow> nat \<times> 'c ruleHydrated hval list \<Rightarrow>
   (nat \<times> 'c ruleHydrated hval list) hydration" where
  "hydrateRuleFragment E checkIndex r st =
     bindH (rethrowH (hydrateConfigFragment (parseUrlContext E) (ruleResource E) None r)
              (\<lambda>e. CMError (RuleNotFetched (fst st) checkIndex) e))
       (\<lambda>hydratedRuleOrSetArr. forEachH (hydrateRuleElement E) hydratedRuleOrSetArr st)"

definition hydrateRules ::
  "('c, 'u) hydrationEnv \<Rightarrow> nat \<Rightarrow> 'c ruleData frag list \<Rightarrow> 'c ruleHydrated hval list hydration" where
  "hydrateRules E checkIndex rules =
     bindH (forEachH (hydrateRuleFragment E checkIndex) rules (1, []))
       (\<lambda>st. returnH (snd st))"

text \<open>One entry of \<^verbatim>\<open>actions\<close>, and the loop over them.\<close>

definition hydrateActionFragment ::
  "('c, 'u) hydrationEnv \<Rightarrow> nat \<Rightarrow> 'c actionConfig frag \<Rightarrow> nat \<times> 'c actionConfig hval list \<Rightarrow>
   (nat \<times> 'c actionConfig hval list) hydration" where
  "hydrateActionFragment E checkIndex a st =
     bindH (rethrowH (hydrateConfigFragment (parseUrlContext E) (actionResource E) None a)
              (\<lambda>e. CMError (ActionNotFetched (fst st) checkIndex) e))
       (\<lambda>hydratedActionArr.
          forEachH (\<lambda>hydratedAction st'. returnH (fst st' + 1, snd st' @ [hydratedAction]))
            hydratedActionArr st)"

definition hydrateActions ::
  "('c, 'u) hydrationEnv \<Rightarrow> nat \<Rightarrow> 'c actionConfig frag list \<Rightarrow> 'c actionConfig hval list hydration" where
  "hydrateActions E checkIndex actions =
     bindH (forEachH (hydrateActionFragment E checkIndex) actions (1, []))
       (\<lambda>st. returnH (snd st))"

text \<open>\<^verbatim>\<open>if (rules !== undefined) { ... }\<close> and the same for actions.\<close>

definition whenDefined :: "('x \<Rightarrow> 'y hydration) \<Rightarrow> 'x option \<Rightarrow> 'y option hydration" where
  "whenDefined f v =
     (case v of None \<Rightarrow> returnH None | Some x \<Rightarrow> bindH (f x) (\<lambda>y. returnH (Some y)))"

text \<open>One element of a resolved check fragment; the state is \<^verbatim>\<open>checkIndex\<close> and
  \<^verbatim>\<open>hydratedChecks\<close>.\<close>

definition hydrateCheckElement ::
  "('c, 'u) hydrationEnv \<Rightarrow> nat \<Rightarrow> 'c checkData hval \<Rightarrow> nat \<times> 'c checkHydrated list \<Rightarrow>
   (nat \<times> 'c checkHydrated list) hydration" where
  "hydrateCheckElement E runIndex hydratedCheckData st =
     (case st of (checkIndex, hydratedChecks) \<Rightarrow>
        (case hydratedCheckData of
           HStr s \<Rightarrow> throwH (CheckNotRecognized checkIndex runIndex s)
         | HObj preValidatedCheck \<Rightarrow>
             bindH (whenDefined (hydrateRules E checkIndex) (check_rules preValidatedCheck))
               (\<lambda>hydratedRulesOrSets.
                bindH (whenDefined (hydrateActions E checkIndex) (check_actions preValidatedCheck))
                  (\<lambda>hydratedActions.
                   returnH (checkIndex + 1,
                     hydratedChecks @
                       [\<lparr>check_name = check_name preValidatedCheck,
                         check_kind = check_kind preValidatedCheck,
                         check_rules = hydratedRulesOrSets,
                         check_actions = hydratedActions,
                         check_authorIs = check_authorIs preValidatedCheck,
                         check_itemIs = check_itemIs preValidatedCheck\<rparr>])))))"

definition hydrateCheckFragment ::
  "('c, 'u) hydrationEnv \<Rightarrow> nat \<Rightarrow> 'c checkData frag \<Rightarrow> nat \<times> 'c checkHydrated list \<Rightarrow>
   (nat \<times> 'c checkHydrated list) hydration" where
  "hydrateCheckFragment E runIndex c st =
     bindH (rethrowH (hydrateConfigFragment (parseUrlContext E) (checkResource E)
                        (Some (fragmentValidator (checkSchema E))) c)
              (\<lambda>e. CMError (CheckNotFetched (fst st) runIndex) e))
       (\<lambda>hydratedCheckDataArr. forEachH (hydrateCheckElement E runIndex) hydratedCheckDataArr st)"

definition hydrateChecks ::
  "('c, 'u) hydrationEnv \<Rightarrow> nat \<Rightarrow> 'c checkData frag list \<Rightarrow> 'c checkHydrated list hydration" where
  "hydrateChecks E runIndex checks =
     bindH (forEachH (hydrateCheckFragment E runIndex) checks (1, []))
       (\<lambda>st. returnH (snd st))"

text \<open>One element of a resolved run fragment; the state is \<^verbatim>\<open>runIndex\<close> and
  \<^verbatim>\<open>hydratedRuns\<close>.\<close>

definition hydrateRunElement ::
  "('c, 'u) hydrationEnv \<Rightarrow> 'c runData hval \<Rightarrow> nat \<times> 'c runHydrated list \<Rightarrow>
   (nat \<times> 'c runHydrated list) hydration" where
  "hydrateRunElement E hydratedRunVal st =
     (case st of (runIndex, hydratedRuns) \<Rightarrow>
        (case hydratedRunVal of
           HStr s \<Rightarrow> throwH (RunFragmentNotRecognized runIndex s)
         | HObj preValidatedRun \<Rightarrow>
             bindH (hydrateChecks E runIndex (run_checks preValidatedRun))
               (\<lambda>hydratedChecks.
                  returnH (runIndex + 1,
                    hydratedRuns @
                      [\<lparr>run_name = run_name preValidatedRun,
                        run_checks = hydratedChecks,
                        run_authorIs = run_authorIs preValidatedRun,
                        run_itemIs = run_itemIs preValidatedRun,
                        run_filterCriteriaDefaults = run_filterCriteriaDefaults preValidatedRun\<rparr>]))))"

definition hydrateRunFragment ::
  "('c, 'u) hydrationEnv \<Rightarrow> 'c runData frag \<Rightarrow> nat \<times> 'c runHydrated list \<Rightarrow>
   (nat \<times> 'c runHydrated list) hydration" where
  "hydrateRunFragment E r st =
     bindH (rethrowH (hydrateConfigFragment (parseUrlContext E) (runResource E)
                        (Some (fragmentValidator (runSchema E))) r)
              (\<lambda>e. CMError (RunNotFetched (fst st)) e))
       (\<lambda>hydratedRunArr. forEachH (hydrateRunElement E) hydratedRunArr st)"

text \<open>The destructuring defaults \<^verbatim>\<open>runs = []\<close>, \<^verbatim>\<open>checks = []\<close>, the check that both
  are not given, and \<^verbatim>\<open>realRuns\<close>: the runs, with one run \<^verbatim>\<open>Run1\<close> of the top-level
  checks pushed when there are any.\<close>

definition listOrEmpty :: "'x list option \<Rightarrow> 'x list" where
  "listOrEmpty v = (case v of None \<Rightarrow> [] | Some xs \<Rightarrow> xs)"

definition realRuns :: "'c subredditConfigData \<Rightarrow> error + 'c runData frag list" where
  "realRuns config =
     (let runs = listOrEmpty (cfg_runs config); checks = listOrEmpty (cfg_checks config) in
      if 0 < length checks \<and> 0 < length runs then Inl BothChecksAndRuns
      else if 0 < length checks
      then Inr (runs @ [FObj \<lparr>run_name = ''Run1'', run_checks = checks, run_authorIs = None,
                              run_itemIs = None, run_filterCriteriaDefaults = None\<rparr>])
      else Inr runs)"

definition hydrateConfig ::
  "('c, 'u) hydrationEnv \<Rightarrow> 'c subredditConfigData \<Rightarrow> 'c subredditConfigHydratedData hydration" where
  "hydrateConfig E config =
     (case realRuns config of
        Inl e \<Rightarrow> throwH e
      | Inr rs \<Rightarrow>
          bindH (forEachH (hydrateRunFragment E) rs (1, []))
            (\<lambda>st. case validateJson (appSchema E)
                          \<lparr>runs = Some (snd st),
                           filterCriteriaDefaults = cfg_filterCriteriaDefaults config\<rparr> of
                     Inl e \<Rightarrow> throwH e
                   | Inr validatedHydratedConfig \<Rightarrow> returnH validatedHydratedConfig))"

text \<open>The loop counters of \<^verbatim>\<open>hydrateConfig\<close> start at 1 and grow by one with every push:
  a counter is one more than the number of elements pushed so far.\<close>

definition counted :: "nat \<times> 'x list \<Rightarrow> bool" where
  "counted st = (fst st = Suc (length (snd st)))"

subsection \<open>Named rules and named filters\<close>

text \<open>\<^verbatim>\<open>String.prototype.toLowerCase\<close> and \<^verbatim>\<open>toLocaleLowerCase\<close>, on the letters
  A to Z.\<close>

definition lowerChar :: "char \<Rightarrow> char" where
  "lowerChar c =
     (let n = (of_char c :: nat) in if 65 \<le> n \<and> n \<le> 90 then char_of (n + 32) else c)"

definition toLowerCase :: "string \<Rightarrow> string" where
  "toLowerCase s = map lowerChar s"

text \<open>A \<^verbatim>\<open>Map\<close> with string keys, in insertion order: \<^verbatim>\<open>has\<close>, \<^verbatim>\<open>get\<close>
  (\<open>None\<close> is \<^verbatim>\<open>undefined\<close>), \<^verbatim>\<open>set\<close> and \<^verbatim>\<open>values\<close>.\<close>

type_synonym 'v jsMap = "(string \<times> 'v) list"

definition mapHas :: "'v jsMap \<Rightarrow> string \<Rightarrow> bool" where
  "mapHas m k = (case map_of m k of None \<Rightarrow> False | Some v \<Rightarrow> True)"

definition mapGet :: "'v jsMap \<Rightarrow> string \<Rightarrow> 'v option" where
  "mapGet m k = map_of m k"

definition mapSet :: "'v jsMap \<Rightarrow> string \<Rightarrow> 'v \<Rightarrow> 'v jsMap" where
  "mapSet m k v =
     (if mapHas m k then map (\<lambda>kv. if fst kv = k then (k, v) else kv) m else m @ [(k, v)])"

definition mapValues :: "'v jsMap \<Rightarrow> 'v list" where
  "mapValues m = map snd m"

text \<open>\<^verbatim>\<open>deepEqual\<close> of two rules, each without its name.\<close>

definition equalWithoutName :: "'c ruleConfig \<Rightarrow> 'c ruleConfig \<Rightarrow> bool" where
  "equalWithoutName a b = (a\<lparr>rule_name := None\<rparr> = b\<lparr>rule_name := None\<rparr>)"

text \<open>The inner loop of \<^verbatim>\<open>extractNamedRules\<close>, over \<^verbatim>\<open>rulesToAdd\<close>.
  \<^verbatim>\<open>normalizeName\<close> (of \<^verbatim>\<open>util\<close>) is a parameter. The branch on
  \<^verbatim>\<open>namedRules.has(normalName)\<close> and the \<^verbatim>\<open>get\<close> inside it are one case
  distinction on what \<^verbatim>\<open>get\<close> answers. Every rule in \<^verbatim>\<open>rulesToAdd\<close> has a name;
  for one without, \<^verbatim>\<open>normalizeName(undefined)\<close> is taken to raise.\<close>

fun addRules ::
  "(string \<Rightarrow> string) \<Rightarrow> 'c ruleConfig list \<Rightarrow> 'c ruleConfig jsMap \<Rightarrow> error + 'c ruleConfig jsMap" where
  "addRules normalizeName [] namedRules = Inr namedRules"
| "addRules normalizeName (r # rulesToAdd) namedRules =
     (case rule_name r of
        None \<Rightarrow> Inl TypeError
      | Some name \<Rightarrow>
          (let normalName = normalizeName name in
           case mapGet namedRules normalName of
             Some existing \<Rightarrow>
               if \<not> equalWithoutName existing r then Inl (RuleNameConflict name)
               else addRules normalizeName rulesToAdd namedRules
           | None \<Rightarrow> addRules normalizeName rulesToAdd (mapSet namedRules normalName r)))"

text \<open>\<^verbatim>\<open>if (rule.name !== undefined) rulesToAdd.push(rule)\<close>.\<close>

definition namedOnly :: "'c ruleConfig \<Rightarrow> 'c ruleConfig list" where
  "namedOnly r = (case rule_name r of None \<Rightarrow> [] | Some n \<Rightarrow> [r])"

text \<open>\<^verbatim>\<open>extractNamedRules(rules, namedRules)\<close>. A string is passed over; an object with a
  \<^verbatim>\<open>kind\<close> is a rule; any other object is a rule set, and the function calls itself on the
  rules of the set with a new map, whose values it then adds. The rules of a set are strings and
  rule objects, so that the inner call, \<open>extractNamedRulesOfSet\<close>, is the function at that type.\<close>

fun extractNamedRulesOfSet ::
  "(string \<Rightarrow> string) \<Rightarrow> 'c ruleConfig hval list \<Rightarrow> 'c ruleConfig jsMap \<Rightarrow>
   error + 'c ruleConfig jsMap" where
  "extractNamedRulesOfSet normalizeName [] namedRules = Inr namedRules"
| "extractNamedRulesOfSet normalizeName (HStr s # rules) namedRules =
     extractNamedRulesOfSet normalizeName rules namedRules"
| "extractNamedRulesOfSet normalizeName (HObj r # rules) namedRules =
     (case addRules normalizeName (namedOnly r) namedRules of
        Inl e \<Rightarrow> Inl e
      | Inr namedRules' \<Rightarrow> extractNamedRulesOfSet normalizeName rules namedRules')"

fun extractNamedRules ::
  "(string \<Rightarrow> string) \<Rightarrow> 'c ruleHydrated hval list \<Rightarrow> 'c ruleConfig jsMap \<Rightarrow>
   error + 'c ruleConfig jsMap" where
  "extractNamedRules normalizeName [] namedRules = Inr namedRules"
| "extractNamedRules normalizeName (HStr s # rules) namedRules =
     extractNamedRules normalizeName rules namedRules"
| "extractNamedRules normalizeName (HObj (RuleObj r) # rules) namedRules =
     (case addRules normalizeName (namedOnly r) namedRules of
        Inl e \<Rightarrow> Inl e
      | Inr namedRules' \<Rightarrow> extractNamedRules normalizeName rules namedRules')"
| "extractNamedRules normalizeName (HObj (RuleSetObj ruleSet) # rules) namedRules =
     (case extractNamedRulesOfSet normalizeName (rs_rules ruleSet) [] of
        Inl e \<Rightarrow> Inl e
      | Inr nestedNamed \<Rightarrow>
          (case addRules normalizeName (mapValues nestedNamed) namedRules of
             Inl e \<Rightarrow> Inl e
           | Inr namedRules' \<Rightarrow> extractNamedRules normalizeName rules namedRules'))"

text \<open>\<^verbatim>\<open>addToNamedFilter(namedFilter, filterName)(val)\<close>: a named criteria is stored under
  its lower-cased name; a name that is already a key raises.\<close>

definition addToNamedFilter ::
  "string \<Rightarrow> 'c maybeCriteria \<Rightarrow> 'c namedCriteria jsMap \<Rightarrow> error + 'c namedCriteria jsMap" where
  "addToNamedFilter filterName val namedFilter =
     (case val of
        CritStr s \<Rightarrow> Inr namedFilter
      | CritNamed nc \<Rightarrow>
          (case nc_name nc of
             None \<Rightarrow> Inr namedFilter
           | Some n \<Rightarrow>
               if mapHas namedFilter (toLowerCase n) then Inl (FilterNameConflict filterName n)
               else Inr (mapSet namedFilter (toLowerCase n) nc))
      | CritAnon c \<Rightarrow> Inr namedFilter)"

text \<open>A loop whose body may raise, over a state.\<close>

fun forEachE :: "('x \<Rightarrow> 's \<Rightarrow> error + 's) \<Rightarrow> 'x list \<Rightarrow> 's \<Rightarrow> error + 's" where
  "forEachE body [] s = Inr s"
| "forEachE body (x # xs) s = (case body x s of Inl e \<Rightarrow> Inl e | Inr s' \<Rightarrow> forEachE body xs s')"

definition thenE :: "(error + 's) \<Rightarrow> ('s \<Rightarrow> error + 't) \<Rightarrow> error + 't" where
  "thenE r f = (case r of Inl e \<Rightarrow> Inl e | Inr s \<Rightarrow> f s)"

text \<open>\<^verbatim>\<open>parseFilterJson(addToFilter)(val)\<close>: nothing for \<^verbatim>\<open>undefined\<close>; every entry of
  an array; for an object every entry of \<^verbatim>\<open>include\<close>, then every entry of
  \<^verbatim>\<open>exclude\<close>, each defaulting to the empty array.\<close>

definition parseFilterJson ::
  "('x \<Rightarrow> 's \<Rightarrow> error + 's) \<Rightarrow> 'x filter option \<Rightarrow> 's \<Rightarrow> error + 's" where
  "parseFilterJson addToFilter val s =
     (case val of
        None \<Rightarrow> Inr s
      | Some (FilterArray vs) \<Rightarrow> forEachE addToFilter vs s
      | Some (FilterObject fo) \<Rightarrow>
          thenE (forEachE addToFilter (listOrEmpty (fo_include fo)) s)
            (forEachE addToFilter (listOrEmpty (fo_exclude fo))))"

text \<open>The state of \<^verbatim>\<open>extractNamedFilters\<close> is the pair of \<^verbatim>\<open>namedAuthorFilters\<close> and
  \<^verbatim>\<open>namedItemFilters\<close>.\<close>

type_synonym 'c namedFilters = "'c namedCriteria jsMap \<times> 'c namedCriteria jsMap"

definition parseAuthorIs :: "'c filterJson option \<Rightarrow> 'c namedFilters \<Rightarrow> error + 'c namedFilters" where
  "parseAuthorIs val s =
     thenE (parseFilterJson (addToNamedFilter ''authorIs'') val (fst s)) (\<lambda>a. Inr (a, snd s))"

definition parseItemIs :: "'c filterJson option \<Rightarrow> 'c namedFilters \<Rightarrow> error + 'c namedFilters" where
  "parseItemIs val s =
     thenE (parseFilterJson (addToNamedFilter ''itemIs'') val (snd s)) (\<lambda>i. Inr (fst s, i))"

text \<open>\<^verbatim>\<open>filterCriteriaDefaults?.authorIs\<close> and \<^verbatim>\<open>filterCriteriaDefaults?.itemIs\<close>.\<close>

definition defaultsAuthorIs :: "'c filterCriteriaDefaultsJson option \<Rightarrow> 'c filterJson option" where
  "defaultsAuthorIs d = (case d of None \<Rightarrow> None | Some f \<Rightarrow> fcd_authorIs f)"

definition defaultsItemIs :: "'c filterCriteriaDefaultsJson option \<Rightarrow> 'c filterJson option" where
  "defaultsItemIs d = (case d of None \<Rightarrow> None | Some f \<Rightarrow> fcd_itemIs f)"

text \<open>The body of \<^verbatim>\<open>for (const rr of ru.rules)\<close>, of \<^verbatim>\<open>for (const ru of c.rules ?? [])\<close>
  and of \<^verbatim>\<open>for (const a of c.actions ?? [])\<close>. Each reads the \<^verbatim>\<open>authorIs\<close> of the
  rule or action and the \<^verbatim>\<open>itemIs\<close> of the check \<open>c\<close>.\<close>

definition filtersOfSetRule ::
  "'c checkHydrated \<Rightarrow> 'c ruleConfig hval \<Rightarrow> 'c namedFilters \<Rightarrow> error + 'c namedFilters" where
  "filtersOfSetRule c rr s =
     (case rr of
        HStr n \<Rightarrow> Inr s
      | HObj r \<Rightarrow> thenE (parseAuthorIs (rule_authorIs r) s) (parseItemIs (check_itemIs c)))"

definition filtersOfRule ::
  "'c checkHydrated \<Rightarrow> 'c ruleHydrated hval \<Rightarrow> 'c namedFilters \<Rightarrow> error + 'c namedFilters" where
  "filtersOfRule c ru s =
     (case ru of
        HStr n \<Rightarrow> Inr s
      | HObj (RuleSetObj rs) \<Rightarrow> forEachE (filtersOfSetRule c) (rs_rules rs) s
      | HObj (RuleObj r) \<Rightarrow> thenE (parseAuthorIs (rule_authorIs r) s) (parseItemIs (check_itemIs c)))"

definition filtersOfAction ::
  "'c checkHydrated \<Rightarrow> 'c actionConfig hval \<Rightarrow> 'c namedFilters \<Rightarrow> error + 'c namedFilters" where
  "filtersOfAction c a s =
     (case a of
        HStr n \<Rightarrow> Inr s
      | HObj ac \<Rightarrow> thenE (parseAuthorIs (action_authorIs ac) s) (parseItemIs (check_itemIs c)))"

text \<open>The body of \<^verbatim>\<open>for (const c of r.checks)\<close>.\<close>

definition filtersOfCheck :: "'c checkHydrated \<Rightarrow> 'c namedFilters \<Rightarrow> error + 'c namedFilters" where
  "filtersOfCheck c s =
     thenE (parseAuthorIs (check_authorIs c) s) (\<lambda>s1.
     thenE (parseItemIs (check_itemIs c) s1) (\<lambda>s2.
     thenE (forEachE (filtersOfRule c) (listOrEmpty (check_rules c)) s2)
       (forEachE (filtersOfAction c) (listOrEmpty (check_actions c)))))"

text \<open>The body of \<^verbatim>\<open>for (const r of runs)\<close>. The defaults read here are those of the
  document, \<^verbatim>\<open>filterCriteriaDefaults\<close> (here \<open>documentDefaults\<close>); the run's own, which the loop destructures as
  \<^verbatim>\<open>filterCriteriaDefaultsFromRun\<close>, are not read.\<close>

definition filtersOfRun ::
  "'c filterCriteriaDefaultsJson option \<Rightarrow> 'c runHydrated \<Rightarrow> 'c namedFilters \<Rightarrow>
   error + 'c namedFilters" where
  "filtersOfRun documentDefaults r s =
     thenE (parseAuthorIs (defaultsAuthorIs documentDefaults) s) (\<lambda>s1.
     thenE (parseAuthorIs (run_authorIs r) s1) (\<lambda>s2.
     thenE (parseItemIs (run_itemIs r) s2) (\<lambda>s3.
     thenE (parseItemIs (defaultsItemIs documentDefaults) s3)
       (forEachE filtersOfCheck (run_checks r)))))"

text \<open>\<^verbatim>\<open>extractNamedFilters(config, namedAuthorFilters, namedItemFilters)\<close>.\<close>

definition extractNamedFilters ::
  "'c subredditConfigHydratedData \<Rightarrow> 'c namedCriteria jsMap \<Rightarrow> 'c namedCriteria jsMap \<Rightarrow>
   error + 'c namedFilters" where
  "extractNamedFilters config namedAuthorFilters namedItemFilters =
     thenE (parseAuthorIs (defaultsAuthorIs (filterCriteriaDefaults config))
              (namedAuthorFilters, namedItemFilters)) (\<lambda>s1.
     thenE (parseItemIs (defaultsItemIs (filterCriteriaDefaults config)) s1)
       (forEachE (filtersOfRun (filterCriteriaDefaults config)) (listOrEmpty (runs config))))"

text \<open>\<^verbatim>\<open>getNamedOrReturn(namedFilters, filterName)(x)\<close>. For a string the key tested with
  \<^verbatim>\<open>has\<close> is the lower-cased string and the key read with \<^verbatim>\<open>get\<close> is the string
  itself; the result \<open>None\<close> is \<^verbatim>\<open>undefined\<close>.\<close>

definition getNamedOrReturn ::
  "'c namedCriteria jsMap \<Rightarrow> string \<Rightarrow> 'c maybeCriteria \<Rightarrow> error + 'c namedCriteria option" where
  "getNamedOrReturn namedFilters filterName x =
     (case x of
        CritStr s \<Rightarrow>
          if \<not> mapHas namedFilters (toLowerCase s) then Inl (NoNamedCriteria filterName s)
          else Inr (mapGet namedFilters s)
      | CritNamed nc \<Rightarrow> Inr (Some nc)
      | CritAnon c \<Rightarrow> Inr (Some \<lparr>nc_name = None, criteria = c\<rparr>))"

text \<open>\<^verbatim>\<open>xs.map(f)\<close> for an \<open>f\<close> that may raise.\<close>

fun mapE :: "('x \<Rightarrow> error + 'y) \<Rightarrow> 'x list \<Rightarrow> error + 'y list" where
  "mapE f [] = Inr []"
| "mapE f (x # xs) =
     (case f x of
        Inl e \<Rightarrow> Inl e
      | Inr y \<Rightarrow> (case mapE f xs of Inl e \<Rightarrow> Inl e | Inr ys \<Rightarrow> Inr (y # ys)))"

definition mapOptE :: "('x \<Rightarrow> error + 'y) \<Rightarrow> 'x list option \<Rightarrow> error + 'y list option" where
  "mapOptE f v =
     (case v of None \<Rightarrow> Inr None | Some xs \<Rightarrow> thenE (mapE f xs) (\<lambda>ys. Inr (Some ys)))"

text \<open>One filter property in \<^verbatim>\<open>insertNameFilters\<close>: an array is mapped; of an object the
  \<^verbatim>\<open>include\<close> is mapped, then the \<^verbatim>\<open>exclude\<close>, each when it is defined.\<close>

definition resolveFilter ::
  "('x \<Rightarrow> error + 'y) \<Rightarrow> 'x filter option \<Rightarrow> error + 'y filter option" where
  "resolveFilter f v =
     (case v of
        None \<Rightarrow> Inr None
      | Some (FilterArray xs) \<Rightarrow> thenE (mapE f xs) (\<lambda>ys. Inr (Some (FilterArray ys)))
      | Some (FilterObject fo) \<Rightarrow>
          thenE (mapOptE f (fo_include fo)) (\<lambda>incl.
          thenE (mapOptE f (fo_exclude fo)) (\<lambda>excl.
            Inr (Some (FilterObject \<lparr>fo_include = incl, fo_exclude = excl\<rparr>)))))"

text \<open>\<^verbatim>\<open>StructuredRunnableBase\<close>, whose entries are what \<^verbatim>\<open>getNamedOrReturn\<close>
  returned.\<close>

record 'c structuredRunnableBase =
  authorIsStructured :: "'c namedCriteria option filter option"
  itemIsStructured :: "'c namedCriteria option filter option"

definition insertNameFilters ::
  "'c namedCriteria jsMap \<Rightarrow> 'c namedCriteria jsMap \<Rightarrow> 'c runnableBaseJson \<Rightarrow>
   error + 'c structuredRunnableBase" where
  "insertNameFilters namedAuthorFilters namedItemFilters val =
     thenE (resolveFilter (getNamedOrReturn namedAuthorFilters ''authorIs'') (authorIsJson val))
       (\<lambda>a. thenE (resolveFilter (getNamedOrReturn namedItemFilters ''itemIs'') (itemIsJson val))
         (\<lambda>i. Inr \<lparr>authorIsStructured = a, itemIsStructured = i\<rparr>))"

text \<open>Every entry of a map of named rules that started empty is stored under the normalised name
  of its rule.\<close>

definition keyed :: "(string \<Rightarrow> string) \<Rightarrow> 'c ruleConfig jsMap \<Rightarrow> bool" where
  "keyed norm m =
     list_all (\<lambda>kv. case rule_name (snd kv) of None \<Rightarrow> False | Some n \<Rightarrow> norm n = fst kv) m"

text \<open>A rule object occurs in a list of rules and rule sets: as an entry of the list, or as a rule
  of a rule set of the list.\<close>

fun occursIn :: "'c ruleConfig \<Rightarrow> 'c ruleHydrated hval list \<Rightarrow> bool" where
  "occursIn r0 [] = False"
| "occursIn r0 (HStr s # rules) = occursIn r0 rules"
| "occursIn r0 (HObj (RuleObj r) # rules) = (r = r0 \<or> occursIn r0 rules)"
| "occursIn r0 (HObj (RuleSetObj ruleSet) # rules) =
     (HObj r0 \<in> set (rs_rules ruleSet) \<or> occursIn r0 rules)"

section \<open>Example inputs\<close>

text \<open>Concrete inputs at which the theorems below are evaluated.\<close>

definition exampleSha1 :: "(nat, string, string) hashed \<Rightarrow> string" where
  "exampleSha1 h =
     (case h of
        HPremise p \<Rightarrow> ''premise:'' @ op_kind p
      | HItemIs xs \<Rightarrow> ''itemIs:'' @ concat xs
      | HAuthorIs a \<Rightarrow>
          ''authorIs:'' @ concat (includeOf (Some a)) @ ''/'' @ concat (excludeOf (Some a)))"

definition exampleActionOptions :: "string list option \<Rightarrow> (nat, string, string) actionPremiseOptions" where
  "exampleActionOptions excl =
     \<lparr>apo_kind = ''comment'',
      apo_config = \<lparr>op_kind = ''comment'', op_config = 7,
                    op_authorIs = Some \<lparr>ao_include = Some [''isMod''], ao_exclude = excl,
                                        ao_excludeCondition = None\<rparr>,
                    op_itemIs = None\<rparr>,
      apo_active = None, apo_manager = ''m1'', apo_name = Some ''reply''\<rparr>"

definition exampleManager :: resourcesManager where
  "exampleManager = \<lparr>mgr_authorTTL = 10000, mgr_enabled = True\<rparr>"

definition ownAuthorCache :: subredditCacheOptions where
  "ownAuthorCache = \<lparr>sco_enabled = None, sco_authorTTL = Some 60000, sco_wikiTTL = None\<rparr>"

definition emptyCache :: "string list memoryCache" where
  "emptyCache = (\<lambda>k. None)"

definition exampleUser :: redditUser where
  "exampleUser = \<lparr>user_name = ''alice''\<rparr>"

definition disabledManager :: resourcesManager where
  "disabledManager = \<lparr>mgr_authorTTL = 10000, mgr_enabled = False\<rparr>"

text \<open>Two rules of the same premise hash under different names (the premise entity is the pair of
  the name and the hash), an item every filter lets through, and an item the item filter rejects.\<close>

definition ruleA :: "(string \<times> string, string, string) rule" where
  "ruleA = \<lparr>rulePremiseEntity = (''ruleA'', ''hash1''), itemIs = [''notRemoved''], authorIs = ''notMod''\<rparr>"

definition ruleB :: "(string \<times> string, string, string) rule" where
  "ruleB = \<lparr>rulePremiseEntity = (''ruleB'', ''hash1''), itemIs = [''notRemoved''], authorIs = ''notMod''\<rparr>"

definition passItemFilter :: "string \<Rightarrow> string list \<Rightarrow> string + bool \<times> string option \<times> string" where
  "passItemFilter item crit = Inr (item \<noteq> ''removed item'', Some ''include'', ''itemIs checked'')"

definition passAuthorFilter :: "string \<Rightarrow> string \<Rightarrow> string + bool \<times> string option \<times> string" where
  "passAuthorFilter item crit = Inr (True, Some ''include'', ''authorIs checked'')"

definition processTrue :: "string \<Rightarrow> string + bool \<times> nat plainRuleResult" where
  "processTrue item = Inr (True, \<lparr>pr_result = Some ''matched'', pr_data = Some 3\<rparr>)"

definition resultA :: "(string \<times> string, nat, string) ruleResultEntity" where
  "resultA =
     \<lparr>premise = (''ruleA'', ''hash1''), triggered = Some True, result = Some ''matched'',
      fromCache = Some False, data = Some 3, rr_itemIs = Some ''itemIs checked'',
      rr_authorIs = Some ''authorIs checked''\<rparr>"


text \<open>A stand-in for \<^verbatim>\<open>parseUrlContext\<close> that recognises the two prefixes, a resource
  that knows one remote rule fragment (an array of two rules) and nothing else, and schemas that
  accept everything.\<close>

definition examplePuc :: "string \<Rightarrow> unit option" where
  "examplePuc s = (if take 4 s = ''url:'' \<or> take 5 s = ''wiki:'' then Some () else None)"

definition notFound :: "includesData \<Rightarrow> error + 'a fetched" where
  "notFound i = Inl (ResourceError ''404'')"

definition ruleOne :: "nat ruleConfig" where
  "ruleOne = \<lparr>rule_name = Some ''one'', rule_kind = ''regex'', rule_authorIs = None,
              rule_itemIs = None, rule_config = 1\<rparr>"

definition ruleTwo :: "nat ruleConfig" where
  "ruleTwo = \<lparr>rule_name = Some ''two'', rule_kind = ''repost'', rule_authorIs = None,
              rule_itemIs = None, rule_config = 2\<rparr>"

definition fetchRules :: "includesData \<Rightarrow> error + nat ruleData fetched" where
  "fetchRules i =
     (if path i = ''url:rules'' then Inr (Many [HObj (RuleObj ruleOne), HObj (RuleObj ruleTwo)])
      else Inl (ResourceError ''404''))"

definition exampleEnv :: "(nat, unit) hydrationEnv" where
  "exampleEnv =
     \<lparr>parseUrlContext = examplePuc,
      runResource = getConfigFragment notFound,
      checkResource = getConfigFragment notFound,
      ruleResource = getConfigFragment fetchRules,
      ruleSetRuleResource = getConfigFragment notFound,
      actionResource = getConfigFragment notFound,
      runSchema = (\<lambda>r. True),
      checkSchema = (\<lambda>c. True),
      appSchema = (\<lambda>d. True)\<rparr>"

definition rejectAll :: "'a validationFunc" where
  "rejectAll d fetched = Inl LoggedError"

definition checkPlain :: "nat checkData" where
  "checkPlain = \<lparr>check_name = ''plain'', check_kind = ''submission'', check_rules = None,
                 check_actions = None, check_authorIs = None, check_itemIs = None\<rparr>"

definition checkPlainHydrated :: "nat checkHydrated" where
  "checkPlainHydrated = \<lparr>check_name = ''plain'', check_kind = ''submission'', check_rules = None,
                 check_actions = None, check_authorIs = None, check_itemIs = None\<rparr>"

definition checkMissingRule :: "nat checkData" where
  "checkMissingRule =
     \<lparr>check_name = ''remote'', check_kind = ''submission'',
      check_rules = Some [FInc \<lparr>path = ''url:rules''\<rparr>, FInc \<lparr>path = ''url:missing''\<rparr>],
      check_actions = None, check_authorIs = None, check_itemIs = None\<rparr>"

definition checkMissingSetRule :: "nat checkData" where
  "checkMissingSetRule =
     \<lparr>check_name = ''set'', check_kind = ''submission'',
      check_rules = Some [FObj (RuleSetObj \<lparr>rs_rules = [FInc \<lparr>path = ''url:missing''\<rparr>],
                                            rs_condition = Some ''AND''\<rparr>)],
      check_actions = None, check_authorIs = None, check_itemIs = None\<rparr>"

definition runOf :: "string \<Rightarrow> nat checkData frag list \<Rightarrow> nat runData" where
  "runOf n cs = \<lparr>run_name = n, run_checks = cs, run_authorIs = None, run_itemIs = None,
                 run_filterCriteriaDefaults = None\<rparr>"

definition docOfRuns :: "nat runData frag list \<Rightarrow> nat subredditConfigData" where
  "docOfRuns rs = \<lparr>cfg_runs = Some rs, cfg_checks = None, cfg_filterCriteriaDefaults = None\<rparr>"

definition docOfChecks :: "nat checkData frag list \<Rightarrow> nat subredditConfigData" where
  "docOfChecks cs = \<lparr>cfg_runs = None, cfg_checks = Some cs, cfg_filterCriteriaDefaults = None\<rparr>"

definition runHydratedOf :: "string \<Rightarrow> nat checkHydrated list \<Rightarrow> nat runHydrated" where
  "runHydratedOf n cs = \<lparr>run_name = n, run_checks = cs, run_authorIs = None, run_itemIs = None,
                         run_filterCriteriaDefaults = None\<rparr>"

definition docMissingRule :: "nat subredditConfigData" where
  "docMissingRule =
     docOfRuns [FObj (runOf ''first'' []),
                FObj (runOf ''second'' [FObj checkPlain, FObj checkMissingRule])]"

text \<open>Rules that share a name up to case, and criteria named \<^verbatim>\<open>Mods\<close>.\<close>

definition spamRule :: "string \<Rightarrow> nat \<Rightarrow> nat ruleConfig" where
  "spamRule n c = \<lparr>rule_name = Some n, rule_kind = ''regex'', rule_authorIs = None,
                   rule_itemIs = None, rule_config = c\<rparr>"

definition modsCriteria :: "string \<Rightarrow> nat namedCriteria" where
  "modsCriteria n = \<lparr>nc_name = Some n, criteria = 7\<rparr>"

definition checkWithAuthorIs :: "string \<Rightarrow> nat filterJson option \<Rightarrow> nat checkHydrated" where
  "checkWithAuthorIs n f =
     \<lparr>check_name = n, check_kind = ''submission'', check_rules = None, check_actions = None,
      check_authorIs = f, check_itemIs = None\<rparr>"

definition docDefaultsNamed :: "nat runHydrated list \<Rightarrow> nat subredditConfigHydratedData" where
  "docDefaultsNamed rs =
     \<lparr>runs = Some rs,
      filterCriteriaDefaults =
        Some \<lparr>fcd_authorIs = Some (FilterArray [CritNamed (modsCriteria ''mods'')]),
              fcd_itemIs = None\<rparr>\<rparr>"

definition docOfHydratedRuns :: "nat runHydrated list \<Rightarrow> nat subredditConfigHydratedData" where
  "docOfHydratedRuns rs = \<lparr>runs = Some rs, filterCriteriaDefaults = None\<rparr>"

definition referTo :: "string \<Rightarrow> nat runnableBaseJson" where
  "referTo n = \<lparr>authorIsJson = Some (FilterArray [CritStr n]), itemIsJson = None\<rparr>"

section \<open>Properties\<close>

subsection \<open>ActionPremise\<close>

lemma apAuthorIs_include_config:
  "includeOf a \<noteq> [] \<Longrightarrow>
   authorIsConfig (apAuthorIs sha1 a p) =
     Some \<lparr>ao_include = Some (includeOf a), ao_exclude = None, ao_excludeCondition = None\<rparr>"
  by (simp add: apAuthorIs_def Let_def)

lemma apAuthorIs_include_hash:
  "includeOf a \<noteq> [] \<Longrightarrow>
   authorIsConfigHash (apAuthorIs sha1 a p) =
     Some (sha1 (HAuthorIs \<lparr>ao_include = Some (includeOf a), ao_exclude = None,
                            ao_excludeCondition = None\<rparr>))"
  by (simp add: apAuthorIs_def Let_def)

text \<open>
  C10. When the \<^verbatim>\<open>authorIs\<close> of the configuration has a non-empty include list, the
  stored \<^verbatim>\<open>authorIsConfig\<close> holds that include list only (no exclude entries, no
  exclude condition), the stored hash is the hash of exactly that object, and a second
  configuration that differs from the first only in the exclude list and exclude condition of its
  \<^verbatim>\<open>authorIs\<close> gets the same \<^verbatim>\<open>authorIsConfigHash\<close>.
\<close>

theorem ActionPremise_include_only:
  assumes "op_authorIs (apo_config d) = Some a"
    and "ao_include a = Some incl"
    and "incl \<noteq> []"
    and "d' = d\<lparr>apo_config := (apo_config d)\<lparr>op_authorIs :=
                  Some (a\<lparr>ao_exclude := excl', ao_excludeCondition := cond'\<rparr>)\<rparr>\<rparr>"
  shows "authorIsConfig (ActionPremise sha1 (Some d)) =
           Some \<lparr>ao_include = Some incl, ao_exclude = None, ao_excludeCondition = None\<rparr>
       \<and> authorIsConfigHash (ActionPremise sha1 (Some d)) =
           Some (sha1 (HAuthorIs \<lparr>ao_include = Some incl, ao_exclude = None,
                                  ao_excludeCondition = None\<rparr>))
       \<and> authorIsConfigHash (ActionPremise sha1 (Some d')) =
           authorIsConfigHash (ActionPremise sha1 (Some d))"
proof -
  have i: "includeOf (op_authorIs (apo_config d)) = incl"
    using assms(1,2) by (simp add: includeOf_def)
  have i': "includeOf (op_authorIs (apo_config d')) = incl"
    using assms(2,4) by (simp add: includeOf_def)
  have ne: "includeOf (op_authorIs (apo_config d)) \<noteq> []"
    and ne': "includeOf (op_authorIs (apo_config d')) \<noteq> []"
    using i i' assms(3) by simp_all
  have c: "authorIsConfig (ActionPremise sha1 (Some d)) =
           Some \<lparr>ao_include = Some incl, ao_exclude = None, ao_excludeCondition = None\<rparr>"
    by (simp add: ActionPremise_def apAuthorIs_include_config [OF ne] i)
  have h: "authorIsConfigHash (ActionPremise sha1 (Some d)) =
           Some (sha1 (HAuthorIs \<lparr>ao_include = Some incl, ao_exclude = None,
                                  ao_excludeCondition = None\<rparr>))"
    by (simp add: ActionPremise_def apAuthorIs_include_hash [OF ne] i)
  have h': "authorIsConfigHash (ActionPremise sha1 (Some d')) =
           Some (sha1 (HAuthorIs \<lparr>ao_include = Some incl, ao_exclude = None,
                                  ao_excludeCondition = None\<rparr>))"
    by (simp add: ActionPremise_def apAuthorIs_include_hash [OF ne'] i')
  from c h h' show ?thesis by simp
qed

theorem ActionPremise_include_only_witness:
  "authorIsConfig (ActionPremise exampleSha1 (Some (exampleActionOptions (Some [''isBot''])))) =
     Some \<lparr>ao_include = Some [''isMod''], ao_exclude = None, ao_excludeCondition = None\<rparr>
   \<and> authorIsConfigHash (ActionPremise exampleSha1 (Some (exampleActionOptions (Some [''isBot''])))) =
     Some ''authorIs:isMod/''
   \<and> authorIsConfigHash (ActionPremise exampleSha1 (Some (exampleActionOptions (Some [''isNew''])))) =
     authorIsConfigHash (ActionPremise exampleSha1 (Some (exampleActionOptions (Some [''isBot'']))))"
  using ActionPremise_include_only
    [where d = "exampleActionOptions (Some [''isBot''])"
       and a = "\<lparr>ao_include = Some [''isMod''], ao_exclude = Some [''isBot''],
                 ao_excludeCondition = None\<rparr>"
       and incl = "[''isMod'']" and d' = "exampleActionOptions (Some [''isNew''])"
       and excl' = "Some [''isNew'']" and cond' = None and ?sha1.0 = exampleSha1]
  by (simp add: exampleActionOptions_def exampleSha1_def includeOf_def excludeOf_def)

subsection \<open>SubredditResources\<close>

lemma getAuthorActivities_key_no_subreddit:
  "getAuthorActivities sha1 fetchLive (this\<lparr>sr_name := n\<rparr>) now user options c =
   getAuthorActivities sha1 fetchLive this now user options c"
  unfolding getAuthorActivities_def Let_def
  by (simp cong: if_cong option.case_cong sum.case_cong split del: if_split)

text \<open>
  C8, the code at the failing input. Two instances, \<^verbatim>\<open>subA\<close> and \<^verbatim>\<open>subB\<close>,
  each constructed with an author TTL of its own (so each has
  \<^verbatim>\<open>useSubredditAuthorCache\<close> set), ask for the activities of the same user with the
  same options, one after the other. The first call fetches live and stores its answer; the second
  call, made by the other subreddit's instance, finds that entry: it returns the first
  instance's items and fetches nothing. (The hash function is arbitrary here: the key
  never receives the subreddit name.)
\<close>

theorem getAuthorActivities_shared_between_subreddits:
  "useSubredditAuthorCache (SubredditResources exampleManager ''subA'' ownAuthorCache)
   \<and> useSubredditAuthorCache (SubredditResources exampleManager ''subB'' ownAuthorCache)
   \<and> (case getAuthorActivities sha1 (\<lambda>u o'. Inr [''seen by subA''])
             (SubredditResources exampleManager ''subA'' ownAuthorCache) 0 exampleUser opts emptyCache of
         (r1, c1, ev1) \<Rightarrow>
           r1 = Inr [''seen by subA'']
           \<and> getAuthorActivities sha1 (\<lambda>u o'. Inr [''seen by subB''])
               (SubredditResources exampleManager ''subB'' ownAuthorCache) 1 exampleUser opts c1
             = (Inr [''seen by subA''], c1,
                [CacheGet (sha1 \<lparr>ho_options = opts, ho_userName = ''alice'', ho_subreddit = None\<rparr>)]))"
  by (simp add: getAuthorActivities_def SubredditResources_def exampleManager_def
      ownAuthorCache_def emptyCache_def exampleUser_def cache_get_def cache_put_def Let_def)

lemma getAuthorActivities_disabled:
  "\<not> enabled this \<Longrightarrow>
   getAuthorActivities sha1 fetchLive this now user options c =
     (fetchLive user options, c, [LiveFetch (user_name user)])"
  by (simp add: getAuthorActivities_def Let_def split: sum.splits)

subsection \<open>Rule.run\<close>









text \<open>
  C2, as stated, fails: \<open>ruleB\<close> is evaluated against an item its item filter rejects, while
  the results of the pass hold a result of the same premise hash. The stored result is
  returned, and the cache lookup is the only call made: neither filter gate has been evaluated.
\<close>

theorem run_returns_cached_without_filters:
  "passItemFilter ''removed item'' (itemIs ruleB) = Inr (False, Some ''include'', ''itemIs checked'')
   \<and> run snd passItemFilter passAuthorFilter processTrue ruleB ''removed item'' [resultA] =
     (Inr (Some True, resultA\<lparr>fromCache := Some True\<rparr>), [CacheLookup])
   \<and> run snd passItemFilter passAuthorFilter processTrue ruleB ''removed item'' [] =
     (Inr (None, (RuleResultEntity (''ruleB'', ''hash1''))
                   \<lparr>rr_itemIs := Some ''itemIs checked'', result := Some itemIsNotPassed\<rparr>),
      [CacheLookup, ItemFilterEvaluated])"
  by (simp add: run_def findResultByPremise_def RuleResultEntity_def ruleB_def
      passItemFilter_def passAuthorFilter_def processTrue_def resultA_def Let_def)

text \<open>
  C2, amended. The cache lookup is the first step of every evaluation. On a hit the stored result
  is returned and no filter gate is evaluated. On a miss the item filter is evaluated next; the
  author filter is evaluated only after the item filter has passed, and \<^verbatim>\<open>process\<close> is
  invoked only after both have passed.
\<close>

theorem run_cache_lookup_first:
  "(\<forall>x. findResultByPremise premiseHash (rulePremiseEntity this) existingResults = Some x \<longrightarrow>
        run premiseHash cif caf process this item existingResults =
          (Inr (triggered x, x), [CacheLookup]))
   \<and> (findResultByPremise premiseHash (rulePremiseEntity this) existingResults = None \<longrightarrow>
        snd (run premiseHash cif caf process this item existingResults) \<in>
          {[CacheLookup, ItemFilterEvaluated],
           [CacheLookup, ItemFilterEvaluated, AuthorFilterEvaluated],
           [CacheLookup, ItemFilterEvaluated, AuthorFilterEvaluated, ProcessInvoked]})
   \<and> (AuthorFilterEvaluated \<in> set (snd (run premiseHash cif caf process this item existingResults)) \<longrightarrow>
        (\<exists>t f. cif item (itemIs this) = Inr (True, t, f)))
   \<and> (ProcessInvoked \<in> set (snd (run premiseHash cif caf process this item existingResults)) \<longrightarrow>
        (\<exists>t f. cif item (itemIs this) = Inr (True, t, f))
        \<and> (\<exists>t f. caf item (authorIs this) = Inr (True, t, f)))"
  by (auto simp: run_def Let_def split: option.splits sum.splits prod.splits if_splits)

theorem run_cache_lookup_first_witness:
  "findResultByPremise snd (rulePremiseEntity ruleB) [resultA] =
       Some (resultA\<lparr>fromCache := Some True\<rparr>)
   \<and> run snd passItemFilter passAuthorFilter processTrue ruleB ''removed item'' [resultA] =
       (Inr (triggered resultA, resultA\<lparr>fromCache := Some True\<rparr>), [CacheLookup])
   \<and> findResultByPremise snd (rulePremiseEntity ruleA) [] = None
   \<and> snd (run snd passItemFilter passAuthorFilter processTrue ruleA ''item1'' []) =
       [CacheLookup, ItemFilterEvaluated, AuthorFilterEvaluated, ProcessInvoked]
   \<and> (\<exists>t f. passItemFilter ''item1'' (itemIs ruleA) = Inr (True, t, f))
   \<and> (\<exists>t f. passAuthorFilter ''item1'' (authorIs ruleA) = Inr (True, t, f))"
proof -
  have hit: "findResultByPremise snd (rulePremiseEntity ruleB) [resultA] =
      Some (resultA\<lparr>fromCache := Some True\<rparr>)"
    by (simp add: findResultByPremise_def ruleB_def resultA_def)
  have miss: "findResultByPremise snd (rulePremiseEntity ruleA) [] = None"
    by (simp add: findResultByPremise_def)
  have ev: "snd (run snd passItemFilter passAuthorFilter processTrue ruleA ''item1'' []) =
       [CacheLookup, ItemFilterEvaluated, AuthorFilterEvaluated, ProcessInvoked]"
    by (simp add: run_def findResultByPremise_def RuleResultEntity_def ruleA_def
        passItemFilter_def passAuthorFilter_def processTrue_def Let_def)
  show ?thesis
    using run_cache_lookup_first [of snd ruleB "[resultA]" passItemFilter passAuthorFilter
        processTrue "''removed item''"]
      run_cache_lookup_first [of snd ruleA "[]" passItemFilter passAuthorFilter
        processTrue "''item1''"]
      hit miss ev
    by simp
qed

subsection \<open>Hydration\<close>

lemma bindH_Inr: "m log = (Inr a, log') \<Longrightarrow> bindH m f log = f a log'"
  by (simp add: bindH_def)

lemma bindH_Inl: "m log = (Inl e, log') \<Longrightarrow> bindH m f log = (Inl e, log')"
  by (simp add: bindH_def)

lemma rethrowH_Inr: "m log = (Inr a, log') \<Longrightarrow> rethrowH m h log = (Inr a, log')"
  by (simp add: rethrowH_def)

lemma rethrowH_Inl: "m log = (Inl e, log') \<Longrightarrow> rethrowH m h log = (Inl (h e), log')"
  by (simp add: rethrowH_def)

text \<open>A loop whose body raises at some element, after the elements before it went through,
  raises that exception; the elements after it are not looked at.\<close>

lemma forEachH_fails:
  "forEachH body pre s log = (Inr s1, log1) \<Longrightarrow> body x s1 log1 = (Inl e, log2) \<Longrightarrow>
   forEachH body (pre @ x # post) s log = (Inl e, log2)"
proof (induction pre arbitrary: s log)
  case Nil
  then show ?case by (simp add: returnH_def bindH_def)
next
  case (Cons y ys)
  from Cons.prems(1) obtain s' log' where y: "body y s log = (Inr s', log')"
    and rest: "forEachH body ys s' log' = (Inr s1, log1)"
    by (auto simp: bindH_def split: prod.splits sum.splits)
  from Cons.IH [OF rest Cons.prems(2)] y show ?case by (simp add: bindH_def)
qed

lemma forEachH_invariant:
  assumes step: "\<And>x s log s' log'. body x s log = (Inr s', log') \<Longrightarrow> P s \<Longrightarrow> P s'"
  shows "forEachH body xs s log = (Inr s', log') \<Longrightarrow> P s \<Longrightarrow> P s'"
proof (induction xs arbitrary: s log)
  case Nil
  then show ?case by (simp add: returnH_def)
next
  case (Cons y ys)
  from Cons.prems(1) obtain s1 log1 where y: "body y s log = (Inr s1, log1)"
    and rest: "forEachH body ys s1 log1 = (Inr s', log')"
    by (auto simp: bindH_def split: prod.splits sum.splits)
  from step [OF y Cons.prems(2)] have "P s1" .
  from Cons.IH [OF rest this] show ?case .
qed

lemma counted_start: "counted (1, [])"
  by (simp add: counted_def)

lemma hydrateRuleElement_counted:
  "hydrateRuleElement E el st log = (Inr st', log') \<Longrightarrow> counted st \<Longrightarrow> counted st'"
  by (cases st; cases el)
     (auto simp: hydrateRuleElement_def counted_def returnH_def bindH_def
       split: ruleOrSet.splits prod.splits sum.splits)

lemma ruleElements_counted:
  assumes "forEachH (hydrateRuleElement E) xs st log = (Inr st', log')" and "counted st"
  shows "counted st'"
proof (rule forEachH_invariant [where body = "hydrateRuleElement E" and P = counted, OF _ assms])
  fix x s l s' l'
  assume "hydrateRuleElement E x s l = (Inr s', l')" and "counted s"
  then show "counted s'" by (rule hydrateRuleElement_counted)
qed

lemma hydrateRuleFragment_counted:
  "hydrateRuleFragment E ci r st log = (Inr st', log') \<Longrightarrow> counted st \<Longrightarrow> counted st'"
  unfolding hydrateRuleFragment_def
  by (auto simp: bindH_def split: prod.splits sum.splits elim: ruleElements_counted)

lemma ruleFragments_counted:
  assumes "forEachH (hydrateRuleFragment E ci) xs st log = (Inr st', log')" and "counted st"
  shows "counted st'"
proof (rule forEachH_invariant [where body = "hydrateRuleFragment E ci" and P = counted, OF _ assms])
  fix x s l s' l'
  assume "hydrateRuleFragment E ci x s l = (Inr s', l')" and "counted s"
  then show "counted s'" by (rule hydrateRuleFragment_counted)
qed

lemma hydrateCheckElement_counted:
  "hydrateCheckElement E ri el st log = (Inr st', log') \<Longrightarrow> counted st \<Longrightarrow> counted st'"
  by (cases st; cases el)
     (auto simp: hydrateCheckElement_def counted_def returnH_def throwH_def bindH_def
       split: prod.splits sum.splits)

lemma checkElements_counted:
  assumes "forEachH (hydrateCheckElement E ri) xs st log = (Inr st', log')" and "counted st"
  shows "counted st'"
proof (rule forEachH_invariant [where body = "hydrateCheckElement E ri" and P = counted, OF _ assms])
  fix x s l s' l'
  assume "hydrateCheckElement E ri x s l = (Inr s', l')" and "counted s"
  then show "counted s'" by (rule hydrateCheckElement_counted)
qed

lemma hydrateCheckFragment_counted:
  "hydrateCheckFragment E ri c st log = (Inr st', log') \<Longrightarrow> counted st \<Longrightarrow> counted st'"
  unfolding hydrateCheckFragment_def
  by (auto simp: bindH_def split: prod.splits sum.splits elim: checkElements_counted)

lemma checkFragments_counted:
  assumes "forEachH (hydrateCheckFragment E ri) xs st log = (Inr st', log')" and "counted st"
  shows "counted st'"
proof (rule forEachH_invariant [where body = "hydrateCheckFragment E ri" and P = counted, OF _ assms])
  fix x s l s' l'
  assume "hydrateCheckFragment E ri x s l = (Inr s', l')" and "counted s"
  then show "counted s'" by (rule hydrateCheckFragment_counted)
qed

text \<open>
  C6, as stated, fails: a validator that rejects whatever it is given does not stop a literal
  object from being resolved, and the log stays empty: the validator has not been invoked, with
  whatever flag. The same validator is invoked, with the flag true, on a fragment that was fetched.
\<close>

theorem hydrateConfigFragment_literal_not_validated:
  "hydrateConfigFragment examplePuc (getConfigFragment fetchRules) (Some rejectAll)
       (FObj (RuleObj ruleOne)) [] =
     (Inr [HObj (RuleObj ruleOne)], [])
   \<and> hydrateConfigFragment examplePuc (getConfigFragment fetchRules) (Some rejectAll)
       (FInc \<lparr>path = ''url:rules''\<rparr>) [] =
     (Inl LoggedError, [Fetched ''url:rules'', ValidatorInvoked True])"
  by (simp add: hydrateConfigFragment_def resolveIncludes_def examplePuc_def
      getConfigFragment_def fetchRules_def rejectAll_def returnH_def bindH_def)

text \<open>
  C6, amended. Every shape of the value is covered, for a call with a validator.
  A literal object is returned as a singleton list, a literal array as it is, and a string that is
  no reference as a singleton, whatever the resource and the validator are: the resource is not
  called (the log is unchanged) and the validator is not invoked. A descriptor whose path is no
  reference raises, again with nothing fetched and the validator not invoked. A reference, written
  as a string or as a descriptor, is handed to the resource together with the validator: when the
  fetch or the parse fails, that failure is raised and the validator is not invoked; otherwise the
  validator is invoked on the fetched value with the flag true, and the resolution returns the
  value (an array as it is, anything else as a singleton) or raises what the validator raises.
\<close>

theorem hydrateConfigFragment_validates_fetched_only:
  "hydrateConfigFragment puc resource validateFunc (FObj a) log = (Inr [HObj a], log)
   \<and> hydrateConfigFragment puc resource validateFunc (FArr xs) log = (Inr xs, log)
   \<and> (puc s = None \<longrightarrow>
        hydrateConfigFragment puc resource validateFunc (FStr s) log = (Inr [HStr s], log))
   \<and> (puc (path i) = None \<longrightarrow>
        hydrateConfigFragment puc resource validateFunc (FInc i) log =
          (Inl (FragmentPathNotUrl (path i)), log))
   \<and> (puc (path i) = Some ctx \<longrightarrow>
        hydrateConfigFragment puc (getConfigFragment fetchParse) (Some validate) (FInc i) log =
          (case fetchParse i of
             Inl e \<Rightarrow> (Inl e, log @ [Fetched (path i)])
           | Inr d \<Rightarrow>
               (case validate d True of
                  Inl e \<Rightarrow> (Inl e, log @ [Fetched (path i), ValidatorInvoked True])
                | Inr ok \<Rightarrow>
                    (Inr (fetchedAsList d), log @ [Fetched (path i), ValidatorInvoked True]))))
   \<and> (puc s = Some ctx \<longrightarrow>
        hydrateConfigFragment puc (getConfigFragment fetchParse) (Some validate) (FStr s) log =
          (case fetchParse \<lparr>path = s\<rparr> of
             Inl e \<Rightarrow> (Inl e, log @ [Fetched s])
           | Inr d \<Rightarrow>
               (case validate d True of
                  Inl e \<Rightarrow> (Inl e, log @ [Fetched s, ValidatorInvoked True])
                | Inr ok \<Rightarrow> (Inr (fetchedAsList d), log @ [Fetched s, ValidatorInvoked True]))))"
  by (auto simp: hydrateConfigFragment_def resolveIncludes_def getConfigFragment_def
      returnH_def throwH_def bindH_def split: sum.splits)

theorem hydrateConfigFragment_validates_fetched_only_witness:
  "hydrateConfigFragment examplePuc (getConfigFragment fetchRules) (Some rejectAll)
        (FObj (RuleObj ruleOne)) [] =
       (Inr [HObj (RuleObj ruleOne)], [])
   \<and> hydrateConfigFragment examplePuc (getConfigFragment fetchRules) (Some rejectAll)
        (FStr ''Repeat1'') [] =
       (Inr [HStr ''Repeat1''], [])
   \<and> hydrateConfigFragment examplePuc (getConfigFragment fetchRules) (Some rejectAll)
        (FInc \<lparr>path = ''rules''\<rparr>) [] =
       (Inl (FragmentPathNotUrl ''rules''), [])
   \<and> hydrateConfigFragment examplePuc (getConfigFragment fetchRules)
        (Some (fragmentValidator (\<lambda>r. True))) (FInc \<lparr>path = ''url:rules''\<rparr>) [] =
       (Inr [HObj (RuleObj ruleOne), HObj (RuleObj ruleTwo)],
        [Fetched ''url:rules'', ValidatorInvoked True])
   \<and> hydrateConfigFragment examplePuc (getConfigFragment fetchRules) (Some rejectAll)
        (FStr ''url:rules'') [] =
       (Inl LoggedError, [Fetched ''url:rules'', ValidatorInvoked True])
   \<and> hydrateConfigFragment examplePuc (getConfigFragment fetchRules) (Some rejectAll)
        (FStr ''url:missing'') [] =
       (Inl (ResourceError ''404''), [Fetched ''url:missing''])"
proof -
  have p1: "examplePuc ''Repeat1'' = None"
    and p2: "examplePuc (path \<lparr>path = ''rules''\<rparr>) = None"
    and p3: "examplePuc (path \<lparr>path = ''url:rules''\<rparr>) = Some ()"
    and p4: "examplePuc ''url:rules'' = Some ()"
    and p5: "examplePuc ''url:missing'' = Some ()"
    by (simp_all add: examplePuc_def)
  have f: "fetchRules \<lparr>path = ''url:rules''\<rparr> =
      Inr (Many [HObj (RuleObj ruleOne), HObj (RuleObj ruleTwo)])"
    and g: "fetchRules \<lparr>path = ''url:missing''\<rparr> = Inl (ResourceError ''404'')"
    by (simp_all add: fetchRules_def)
  note t = hydrateConfigFragment_validates_fetched_only
    [where puc = examplePuc and resource = "getConfigFragment fetchRules" and log = "[]"
       and fetchParse = fetchRules and ctx = "()" and a = "RuleObj ruleOne" and xs = "[]"]
  show ?thesis
    using t [where validateFunc = "Some rejectAll" and s = "''Repeat1''"
               and i = "\<lparr>path = ''rules''\<rparr>" and validate = rejectAll]
      t [where validateFunc = "Some rejectAll" and s = "''url:rules''"
               and i = "\<lparr>path = ''url:rules''\<rparr>"
               and validate = "fragmentValidator (\<lambda>r. True)"]
      t [where validateFunc = "Some rejectAll" and s = "''url:rules''"
               and i = "\<lparr>path = ''url:rules''\<rparr>" and validate = rejectAll]
      t [where validateFunc = "Some rejectAll" and s = "''url:missing''"
               and i = "\<lparr>path = ''url:rules''\<rparr>" and validate = rejectAll]
      p1 p2 p3 p4 p5 f g
    by (simp add: fragmentValidator_def validateJson_def fetchedAsList_def rejectAll_def)
qed

text \<open>
  C7. A document with a non-empty top-level \<^verbatim>\<open>runs\<close> and a non-empty top-level
  \<^verbatim>\<open>checks\<close> fails with the document-shape error and an unchanged log: no run has been
  resolved. A document with a non-empty \<^verbatim>\<open>checks\<close> and no run has exactly one run to
  hydrate, the literal run named \<^verbatim>\<open>Run1\<close> holding those checks, and whenever its hydration
  succeeds the hydrated document has exactly one run, named \<^verbatim>\<open>Run1\<close>.
\<close>

theorem hydrateConfig_top_level:
  "(cfg_runs config = Some rs \<and> rs \<noteq> [] \<and> cfg_checks config = Some cs \<and> cs \<noteq> [] \<longrightarrow>
      hydrateConfig E config log = (Inl BothChecksAndRuns, log))
   \<and> (listOrEmpty (cfg_runs config) = [] \<and> cfg_checks config = Some cs \<and> cs \<noteq> [] \<longrightarrow>
      realRuns config =
        Inr [FObj \<lparr>run_name = ''Run1'', run_checks = cs, run_authorIs = None, run_itemIs = None,
                   run_filterCriteriaDefaults = None\<rparr>]
      \<and> (\<forall>h log'. hydrateConfig E config log = (Inr h, log') \<longrightarrow>
            (\<exists>hc. runs h =
               Some [\<lparr>run_name = ''Run1'', run_checks = hc, run_authorIs = None,
                      run_itemIs = None, run_filterCriteriaDefaults = None\<rparr>])))"
proof (intro conjI impI allI)
  assume "cfg_runs config = Some rs \<and> rs \<noteq> [] \<and> cfg_checks config = Some cs \<and> cs \<noteq> []"
  then show "hydrateConfig E config log = (Inl BothChecksAndRuns, log)"
    by (simp add: hydrateConfig_def realRuns_def listOrEmpty_def throwH_def)
next
  assume a: "listOrEmpty (cfg_runs config) = [] \<and> cfg_checks config = Some cs \<and> cs \<noteq> []"
  then show "realRuns config =
        Inr [FObj \<lparr>run_name = ''Run1'', run_checks = cs, run_authorIs = None, run_itemIs = None,
                   run_filterCriteriaDefaults = None\<rparr>]"
    by (simp add: realRuns_def listOrEmpty_def)
next
  fix h log'
  assume a: "listOrEmpty (cfg_runs config) = [] \<and> cfg_checks config = Some cs \<and> cs \<noteq> []"
    and ok: "hydrateConfig E config log = (Inr h, log')"
  from a have rr: "realRuns config =
        Inr [FObj \<lparr>run_name = ''Run1'', run_checks = cs, run_authorIs = None, run_itemIs = None,
                   run_filterCriteriaDefaults = None\<rparr>]"
    by (simp add: realRuns_def listOrEmpty_def)
  from ok show "\<exists>hc. runs h =
               Some [\<lparr>run_name = ''Run1'', run_checks = hc, run_authorIs = None,
                      run_itemIs = None, run_filterCriteriaDefaults = None\<rparr>]"
    unfolding hydrateConfig_def rr
    by (auto simp: hydrateRunFragment_def hydrateRunElement_def hydrateConfigFragment_def
        resolveIncludes_def validateJson_def returnH_def throwH_def bindH_def
        rethrowH_def split: prod.splits sum.splits if_splits)
qed

theorem hydrateConfig_top_level_witness:
  "hydrateConfig exampleEnv
      \<lparr>cfg_runs = Some [FObj (runOf ''first'' [])], cfg_checks = Some [FObj checkPlain],
       cfg_filterCriteriaDefaults = None\<rparr> [] = (Inl BothChecksAndRuns, [])
   \<and> realRuns (docOfChecks [FObj checkPlain]) =
        Inr [FObj \<lparr>run_name = ''Run1'', run_checks = [FObj checkPlain], run_authorIs = None,
                   run_itemIs = None, run_filterCriteriaDefaults = None\<rparr>]
   \<and> hydrateConfig exampleEnv (docOfChecks [FObj checkPlain]) [] =
       (Inr \<lparr>runs = Some [\<lparr>run_name = ''Run1'', run_checks = [checkPlainHydrated],
                            run_authorIs = None, run_itemIs = None,
                            run_filterCriteriaDefaults = None\<rparr>],
             filterCriteriaDefaults = None\<rparr>, [])"
proof -
  have ev: "hydrateConfig exampleEnv (docOfChecks [FObj checkPlain]) [] =
       (Inr \<lparr>runs = Some [\<lparr>run_name = ''Run1'', run_checks = [checkPlainHydrated],
                            run_authorIs = None, run_itemIs = None,
                            run_filterCriteriaDefaults = None\<rparr>],
             filterCriteriaDefaults = None\<rparr>, [])"
    by (simp add: hydrateConfig_def realRuns_def listOrEmpty_def docOfChecks_def
        hydrateRunFragment_def hydrateRunElement_def hydrateChecks_def hydrateCheckFragment_def
        hydrateCheckElement_def hydrateConfigFragment_def resolveIncludes_def
        whenDefined_def checkPlain_def checkPlainHydrated_def exampleEnv_def validateJson_def
        returnH_def throwH_def bindH_def rethrowH_def)
  have both: "hydrateConfig exampleEnv
      \<lparr>cfg_runs = Some [FObj (runOf ''first'' [])], cfg_checks = Some [FObj checkPlain],
       cfg_filterCriteriaDefaults = None\<rparr> [] = (Inl BothChecksAndRuns, [])"
    using hydrateConfig_top_level
      [where config = "\<lparr>cfg_runs = Some [FObj (runOf ''first'' [])],
                         cfg_checks = Some [FObj checkPlain], cfg_filterCriteriaDefaults = None\<rparr>"
         and rs = "[FObj (runOf ''first'' [])]" and cs = "[FObj checkPlain]"
         and E = exampleEnv and log = "[]"]
    by simp
  have one: "realRuns (docOfChecks [FObj checkPlain]) =
        Inr [FObj \<lparr>run_name = ''Run1'', run_checks = [FObj checkPlain], run_authorIs = None,
                   run_itemIs = None, run_filterCriteriaDefaults = None\<rparr>]"
    using hydrateConfig_top_level
      [where config = "docOfChecks [FObj checkPlain]" and cs = "[FObj checkPlain]"
         and E = exampleEnv and log = "[]"]
    by (simp add: docOfChecks_def listOrEmpty_def)
  from ev both one show ?thesis by simp
qed

text \<open>
  C9, as stated, fails. The remote rule fragment \<^verbatim>\<open>url:missing\<close> cannot be fetched. It is
  the second rule entry of the second check of the second run in the first document, and of the
  first run in the second document: the propagated error is the same, it names rule 3 (the first
  entry resolved to two rules) and check 2, and no run. In the third document the fragment is a
  rule of a rule set: the resource's error is propagated as it is, with no position at all.
\<close>

theorem hydrateConfig_rule_error_without_run:
  "fst (hydrateConfig exampleEnv
          (docOfRuns [FObj (runOf ''first'' []),
                      FObj (runOf ''second'' [FObj checkPlain, FObj checkMissingRule])]) []) =
     Inl (CMError (RuleNotFetched 3 2) (ResourceError ''404''))
   \<and> fst (hydrateConfig exampleEnv
          (docOfRuns [FObj (runOf ''second'' [FObj checkPlain, FObj checkMissingRule])]) []) =
     Inl (CMError (RuleNotFetched 3 2) (ResourceError ''404''))
   \<and> fst (hydrateConfig exampleEnv
          (docOfRuns [FObj (runOf ''first'' [FObj checkMissingSetRule])]) []) =
     Inl (ResourceError ''404'')"
  by (simp add: hydrateConfig_def realRuns_def listOrEmpty_def docOfRuns_def runOf_def
      hydrateRunFragment_def hydrateRunElement_def hydrateChecks_def hydrateCheckFragment_def
      hydrateCheckElement_def hydrateRules_def hydrateRuleFragment_def hydrateRuleElement_def
      hydrateRuleSetRules_def hydrateConfigFragment_def resolveIncludes_def
      fetchedAsList_def whenDefined_def checkPlain_def checkMissingRule_def
      checkMissingSetRule_def exampleEnv_def examplePuc_def getConfigFragment_def fetchRules_def
      notFound_def returnH_def throwH_def bindH_def rethrowH_def)

text \<open>
  C9, amended. Take any document and follow the hydration down to an entry \<open>f\<close> of the
  \<^verbatim>\<open>rules\<close> of a check: the run fragments \<open>preR\<close> before the run's fragment \<open>rf\<close> have been
  hydrated, \<open>rf\<close> resolves to elements of which those before the run have been hydrated, and the
  same for the check's fragment \<open>cf\<close> among the checks of the run and for the rule entries \<open>preF\<close>
  before \<open>f\<close>. If resolving \<open>f\<close> raises \<open>e\<close> (a failed fetch or parse, a path that is no URL), then
  the whole hydration raises a \<^verbatim>\<open>CMError\<close> with cause \<open>e\<close>, whatever comes after \<open>f\<close>; the
  error carries the 1-based number of the rule (one more than the rules hydrated so far in the
  check) and the 1-based number of the check (one more than the checks hydrated so far in the
  run). It does not carry the number of the run.
\<close>

theorem hydrateConfig_rule_fragment_error:
  assumes runs: "realRuns config = Inr (preR @ rf # postR)"
    and preR: "forEachH (hydrateRunFragment E) preR (1, []) log0 = (Inr (ri, accR), log1)"
    and rf: "hydrateConfigFragment (parseUrlContext E) (runResource E)
               (Some (fragmentValidator (runSchema E))) rf log1 =
             (Inr (preRE @ HObj theRun # postRE), log2)"
    and preRE: "forEachH (hydrateRunElement E) preRE (ri, accR) log2 = (Inr (ri', accR'), log3)"
    and checks: "run_checks theRun = preC @ cf # postC"
    and preC: "forEachH (hydrateCheckFragment E ri') preC (1, []) log3 = (Inr (ci, accC), log4)"
    and cf: "hydrateConfigFragment (parseUrlContext E) (checkResource E)
               (Some (fragmentValidator (checkSchema E))) cf log4 =
             (Inr (preCE @ HObj theCheck # postCE), log5)"
    and preCE: "forEachH (hydrateCheckElement E ri') preCE (ci, accC) log5 =
                (Inr (ci', accC'), log6)"
    and rules: "check_rules theCheck = Some (preF @ f # postF)"
    and preF: "forEachH (hydrateRuleFragment E ci') preF (1, []) log6 = (Inr (k, accF), log7)"
    and fail: "hydrateConfigFragment (parseUrlContext E) (ruleResource E) None f log7 =
               (Inl e, log8)"
  shows "hydrateConfig E config log0 = (Inl (CMError (RuleNotFetched k ci') e), log8)
       \<and> k = Suc (length accF) \<and> ci' = Suc (length accC')"
proof -
  let ?err = "CMError (RuleNotFetched k ci') e"
  have "hydrateRuleFragment E ci' f (k, accF) log7 = (Inl ?err, log8)"
    using fail by (simp add: hydrateRuleFragment_def bindH_def rethrowH_def)
  from forEachH_fails [OF preF this]
  have "hydrateRules E ci' (preF @ f # postF) log6 = (Inl ?err, log8)"
    by (simp add: hydrateRules_def bindH_def)
  then have "hydrateCheckElement E ri' (HObj theCheck) (ci', accC') log6 = (Inl ?err, log8)"
    using rules by (simp add: hydrateCheckElement_def whenDefined_def bindH_def)
  from forEachH_fails [OF preCE this]
  have "hydrateCheckFragment E ri' cf (ci, accC) log4 = (Inl ?err, log8)"
    using cf by (simp add: hydrateCheckFragment_def bindH_def rethrowH_def)
  from forEachH_fails [OF preC this]
  have "hydrateChecks E ri' (preC @ cf # postC) log3 = (Inl ?err, log8)"
    by (simp add: hydrateChecks_def bindH_def)
  then have "hydrateRunElement E (HObj theRun) (ri', accR') log3 = (Inl ?err, log8)"
    using checks by (simp add: hydrateRunElement_def bindH_def)
  from forEachH_fails [OF preRE this]
  have "hydrateRunFragment E rf (ri, accR) log1 = (Inl ?err, log8)"
    using rf by (simp add: hydrateRunFragment_def bindH_def rethrowH_def)
  from forEachH_fails [OF preR this]
  have top: "hydrateConfig E config log0 = (Inl ?err, log8)"
    using runs by (simp add: hydrateConfig_def bindH_def)
  have "counted (k, accF)"
    using ruleFragments_counted [OF preF counted_start] .
  then have k: "k = Suc (length accF)"
    by (simp add: counted_def)
  have "counted (ci, accC)"
    using checkFragments_counted [OF preC counted_start] .
  then have "counted (ci', accC')"
    using checkElements_counted [OF preCE] by simp
  then have c: "ci' = Suc (length accC')"
    by (simp add: counted_def)
  from top k c show ?thesis by simp
qed

theorem hydrateConfig_rule_fragment_error_witness:
  "hydrateConfig exampleEnv docMissingRule [] =
     (Inl (CMError (RuleNotFetched 3 2) (ResourceError ''404'')),
      [Fetched ''url:rules'', Fetched ''url:missing''])
   \<and> (3::nat) = Suc (length [HObj (RuleObj ruleOne), HObj (RuleObj ruleTwo) :: nat ruleHydrated hval])
   \<and> (2::nat) = Suc (length [checkPlainHydrated])"
proof -
  have runs: "realRuns docMissingRule =
      Inr ([FObj (runOf ''first'' [])] @
           FObj (runOf ''second'' [FObj checkPlain, FObj checkMissingRule]) # [])"
    by (simp add: docMissingRule_def docOfRuns_def realRuns_def listOrEmpty_def)
  have preR: "forEachH (hydrateRunFragment exampleEnv) [FObj (runOf ''first'' [])] (1, []) [] =
      (Inr (2, [runHydratedOf ''first'' []]), [])"
    by (simp add: hydrateRunFragment_def hydrateRunElement_def hydrateChecks_def
        hydrateConfigFragment_def resolveIncludes_def runOf_def runHydratedOf_def
        exampleEnv_def returnH_def bindH_def rethrowH_def)
  have rf: "hydrateConfigFragment (parseUrlContext exampleEnv) (runResource exampleEnv)
      (Some (fragmentValidator (runSchema exampleEnv)))
      (FObj (runOf ''second'' [FObj checkPlain, FObj checkMissingRule])) [] =
      (Inr ([] @ HObj (runOf ''second'' [FObj checkPlain, FObj checkMissingRule]) # []), [])"
    by (simp add: hydrateConfigFragment_def resolveIncludes_def returnH_def)
  have preRE: "forEachH (hydrateRunElement exampleEnv) [] (2, [runHydratedOf ''first'' []]) [] =
      (Inr (2, [runHydratedOf ''first'' []]), [])"
    by (simp add: returnH_def)
  have checks: "run_checks (runOf ''second'' [FObj checkPlain, FObj checkMissingRule]) =
      [FObj checkPlain] @ FObj checkMissingRule # []"
    by (simp add: runOf_def)
  have preC: "forEachH (hydrateCheckFragment exampleEnv 2) [FObj checkPlain] (1, []) [] =
      (Inr (2, [checkPlainHydrated]), [])"
    by (simp add: hydrateCheckFragment_def hydrateCheckElement_def hydrateConfigFragment_def
        resolveIncludes_def whenDefined_def checkPlain_def checkPlainHydrated_def
        exampleEnv_def returnH_def bindH_def rethrowH_def)
  have cf: "hydrateConfigFragment (parseUrlContext exampleEnv) (checkResource exampleEnv)
      (Some (fragmentValidator (checkSchema exampleEnv))) (FObj checkMissingRule) [] =
      (Inr ([] @ HObj checkMissingRule # []), [])"
    by (simp add: hydrateConfigFragment_def resolveIncludes_def returnH_def)
  have preCE: "forEachH (hydrateCheckElement exampleEnv 2) [] (2, [checkPlainHydrated]) [] =
      (Inr (2, [checkPlainHydrated]), [])"
    by (simp add: returnH_def)
  have rules: "check_rules checkMissingRule =
      Some ([FInc \<lparr>path = ''url:rules''\<rparr>] @ FInc \<lparr>path = ''url:missing''\<rparr> # [])"
    by (simp add: checkMissingRule_def)
  have preF: "forEachH (hydrateRuleFragment exampleEnv 2) [FInc \<lparr>path = ''url:rules''\<rparr>] (1, []) [] =
      (Inr (3, [HObj (RuleObj ruleOne), HObj (RuleObj ruleTwo)]), [Fetched ''url:rules''])"
    by (simp add: hydrateRuleFragment_def hydrateRuleElement_def hydrateConfigFragment_def
        resolveIncludes_def fetchedAsList_def exampleEnv_def examplePuc_def getConfigFragment_def
        fetchRules_def returnH_def bindH_def rethrowH_def)
  have fail: "hydrateConfigFragment (parseUrlContext exampleEnv) (ruleResource exampleEnv) None
      (FInc \<lparr>path = ''url:missing''\<rparr>) [Fetched ''url:rules''] =
      (Inl (ResourceError ''404''), [Fetched ''url:rules'', Fetched ''url:missing''])"
    by (simp add: hydrateConfigFragment_def resolveIncludes_def exampleEnv_def examplePuc_def
        getConfigFragment_def fetchRules_def bindH_def)
  show ?thesis
    using hydrateConfig_rule_fragment_error
      [OF runs preR rf preRE checks preC cf preCE rules preF fail]
    by simp
qed

subsection \<open>Named rules\<close>

lemma thenE_Inr [simp]: "thenE (Inr s) f = f s"
  by (simp add: thenE_def)

lemma thenE_Inl [simp]: "thenE (Inl e) f = Inl e"
  by (simp add: thenE_def)

lemma extractNamedRules_append:
  "extractNamedRules norm (xs @ ys) m = thenE (extractNamedRules norm xs m) (extractNamedRules norm ys)"
  by (induction norm xs m rule: extractNamedRules.induct) (auto split: sum.splits)

lemma addRules_registered:
  assumes "rule_name r = Some n" and "mapGet m (norm n) = Some existing"
  shows "addRules norm [r] m =
           (if existing\<lparr>rule_name := None\<rparr> = r\<lparr>rule_name := None\<rparr> then Inr m
            else Inl (RuleNameConflict n))"
  using assms by (simp add: mapGet_def equalWithoutName_def)

lemma equalWithoutName_sym: "equalWithoutName a b \<Longrightarrow> equalWithoutName b a"
  by (simp add: equalWithoutName_def)

lemma equalWithoutName_trans:
  "equalWithoutName a b \<Longrightarrow> equalWithoutName b c \<Longrightarrow> equalWithoutName a c"
  by (simp add: equalWithoutName_def)

lemma equalWithoutName_refl: "equalWithoutName a a"
  by (simp add: equalWithoutName_def)

lemma mapGet_mapSet_new:
  "mapGet m k = None \<Longrightarrow>
   mapGet (mapSet m k v) k' = (if k' = k then Some v else mapGet m k')"
  by (auto simp: mapGet_def mapSet_def mapHas_def map_add_def split: option.splits)

lemma addRules_preserves:
  "addRules norm xs m = Inr m' \<Longrightarrow> mapGet m k = Some v \<Longrightarrow> mapGet m' k = Some v"
proof (induction xs arbitrary: m)
  case Nil
  then show ?case by simp
next
  case (Cons r xs)
  show ?case
  proof (cases "rule_name r")
    case None
    with Cons.prems show ?thesis by simp
  next
    case (Some n)
    show ?thesis
    proof (cases "mapGet m (norm n)")
      case None
      with Some Cons.prems(1) have rest: "addRules norm xs (mapSet m (norm n) r) = Inr m'"
        by simp
      from None Cons.prems(2) have "mapGet (mapSet m (norm n) r) k = Some v"
        by (auto simp: mapGet_mapSet_new)
      from Cons.IH [OF rest this] show ?thesis .
    next
      case (Some existing)
      with \<open>rule_name r = Some n\<close> Cons.prems(1) have rest: "addRules norm xs m = Inr m'"
        by (simp split: if_splits)
      from Cons.IH [OF rest Cons.prems(2)] show ?thesis .
    qed
  qed
qed

lemma addRules_registers:
  "addRules norm xs m = Inr m' \<Longrightarrow> r0 \<in> set xs \<Longrightarrow> rule_name r0 = Some n0 \<Longrightarrow>
   \<exists>ex. mapGet m' (norm n0) = Some ex \<and> equalWithoutName ex r0"
proof (induction xs arbitrary: m)
  case Nil
  then show ?case by simp
next
  case (Cons r xs)
  show ?case
  proof (cases "rule_name r")
    case None
    with Cons.prems show ?thesis by simp
  next
    case (Some n)
    show ?thesis
    proof (cases "mapGet m (norm n)")
      case None
      with Some Cons.prems(1) have rest: "addRules norm xs (mapSet m (norm n) r) = Inr m'"
        by simp
      show ?thesis
      proof (cases "r0 = r")
        case True
        with Some Cons.prems(3) have "n0 = n" by simp
        from None have "mapGet (mapSet m (norm n) r) (norm n) = Some r"
          by (simp add: mapGet_mapSet_new)
        from addRules_preserves [OF rest this] True \<open>n0 = n\<close> show ?thesis
          by (auto simp: equalWithoutName_refl)
      next
        case False
        with Cons.prems(2) have "r0 \<in> set xs" by simp
        from Cons.IH [OF rest this Cons.prems(3)] show ?thesis .
      qed
    next
      case (Some existing)
      with \<open>rule_name r = Some n\<close> Cons.prems(1) have rest: "addRules norm xs m = Inr m'"
        and eq: "equalWithoutName existing r"
        by (simp_all split: if_splits)
      show ?thesis
      proof (cases "r0 = r")
        case True
        with \<open>rule_name r = Some n\<close> Cons.prems(3) have "n0 = n" by simp
        from addRules_preserves [OF rest Some] True \<open>n0 = n\<close> eq show ?thesis by auto
      next
        case False
        with Cons.prems(2) have "r0 \<in> set xs" by simp
        from Cons.IH [OF rest this Cons.prems(3)] show ?thesis .
      qed
    qed
  qed
qed

lemma keyed_mapSet:
  "keyed norm m \<Longrightarrow> mapGet m (norm n) = None \<Longrightarrow> rule_name r = Some n \<Longrightarrow>
   keyed norm (mapSet m (norm n) r)"
  by (simp add: keyed_def mapSet_def mapHas_def mapGet_def)

lemma addRules_keyed:
  "addRules norm xs m = Inr m' \<Longrightarrow> keyed norm m \<Longrightarrow> keyed norm m'"
proof (induction xs arbitrary: m)
  case Nil
  then show ?case by simp
next
  case (Cons r xs)
  show ?case
  proof (cases "rule_name r")
    case None
    with Cons.prems show ?thesis by simp
  next
    case (Some n)
    show ?thesis
    proof (cases "mapGet m (norm n)")
      case None
      with Some Cons.prems(1) have rest: "addRules norm xs (mapSet m (norm n) r) = Inr m'"
        by simp
      from Cons.IH [OF rest keyed_mapSet [OF Cons.prems(2) None Some]] show ?thesis .
    next
      case (Some existing)
      with \<open>rule_name r = Some n\<close> Cons.prems(1) have rest: "addRules norm xs m = Inr m'"
        by (simp split: if_splits)
      from Cons.IH [OF rest Cons.prems(2)] show ?thesis .
    qed
  qed
qed

lemma keyed_entry:
  assumes "keyed norm m" and "mapGet m k = Some ex"
  shows "ex \<in> set (mapValues m) \<and> (\<exists>n. rule_name ex = Some n \<and> norm n = k)"
proof -
  from assms(2) have mem: "(k, ex) \<in> set m"
    by (simp add: mapGet_def map_of_SomeD)
  then have "ex \<in> set (mapValues m)"
    by (force simp: mapValues_def)
  moreover from assms(1) mem have "\<exists>n. rule_name ex = Some n \<and> norm n = k"
    by (auto simp: keyed_def list_all_iff split: option.splits)
  ultimately show ?thesis by simp
qed

lemma ofSet_facts:
  "extractNamedRulesOfSet norm rules m = Inr m' \<Longrightarrow>
   (keyed norm m \<longrightarrow> keyed norm m')
   \<and> (\<forall>k v. mapGet m k = Some v \<longrightarrow> mapGet m' k = Some v)
   \<and> (\<forall>r0 n0. HObj r0 \<in> set rules \<longrightarrow> rule_name r0 = Some n0 \<longrightarrow>
         (\<exists>ex. mapGet m' (norm n0) = Some ex \<and> equalWithoutName ex r0))"
proof (induction norm rules m rule: extractNamedRulesOfSet.induct)
  case (1 norm m)
  then show ?case by simp
next
  case (2 norm s rules m)
  then show ?case by simp
next
  case (3 norm r rules m)
  from "3.prems" obtain m1 where a: "addRules norm (namedOnly r) m = Inr m1"
    and rest: "extractNamedRulesOfSet norm rules m1 = Inr m'"
    by (auto split: sum.splits)
  note ih = "3.IH" [OF a rest]
  have reg: "\<exists>ex. mapGet m' (norm n0) = Some ex \<and> equalWithoutName ex r0"
    if "HObj r0 \<in> set (HObj r # rules)" and "rule_name r0 = Some n0" for r0 n0
  proof (cases "r0 = r")
    case True
    with that(2) have "r0 \<in> set (namedOnly r)" by (simp add: namedOnly_def)
    from addRules_registers [OF a this that(2)] obtain ex
      where "mapGet m1 (norm n0) = Some ex" "equalWithoutName ex r0" by blast
    with ih show ?thesis by blast
  next
    case False
    with that(1) have "HObj r0 \<in> set rules" by simp
    with ih that(2) show ?thesis by blast
  qed
  show ?case
    using ih addRules_keyed [OF a] addRules_preserves [OF a] reg by blast
qed

lemma extractNamedRules_facts:
  "extractNamedRules norm rules m = Inr m' \<Longrightarrow>
   (\<forall>k v. mapGet m k = Some v \<longrightarrow> mapGet m' k = Some v)
   \<and> (\<forall>r0 n0. occursIn r0 rules \<longrightarrow> rule_name r0 = Some n0 \<longrightarrow>
         (\<exists>ex. mapGet m' (norm n0) = Some ex \<and> equalWithoutName ex r0))"
proof (induction norm rules m rule: extractNamedRules.induct)
  case (1 norm m)
  then show ?case by simp
next
  case (2 norm s rules m)
  then show ?case by simp
next
  case (3 norm r rules m)
  from "3.prems" obtain m1 where a: "addRules norm (namedOnly r) m = Inr m1"
    and rest: "extractNamedRules norm rules m1 = Inr m'"
    by (auto split: sum.splits)
  note ih = "3.IH" [OF a rest]
  have reg: "\<exists>ex. mapGet m' (norm n0) = Some ex \<and> equalWithoutName ex r0"
    if "occursIn r0 (HObj (RuleObj r) # rules)" and "rule_name r0 = Some n0" for r0 n0
  proof (cases "r0 = r")
    case True
    with that(2) have "r0 \<in> set (namedOnly r)" by (simp add: namedOnly_def)
    from addRules_registers [OF a this that(2)] obtain ex
      where "mapGet m1 (norm n0) = Some ex" "equalWithoutName ex r0" by blast
    with ih show ?thesis by blast
  next
    case False
    with that(1) have "occursIn r0 rules" by auto
    with ih that(2) show ?thesis by blast
  qed
  show ?case
    using ih addRules_preserves [OF a] reg by blast
next
  case (4 norm ruleSet rules m)
  from "4.prems" obtain nested m1
    where n: "extractNamedRulesOfSet norm (rs_rules ruleSet) [] = Inr nested"
      and a: "addRules norm (mapValues nested) m = Inr m1"
      and rest: "extractNamedRules norm rules m1 = Inr m'"
    by (auto split: sum.splits)
  note ih = "4.IH" [OF n a rest]
  have k0: "keyed norm []" by (simp add: keyed_def)
  from ofSet_facts [OF n] k0 have kn: "keyed norm nested"
    and regn: "\<And>r0 n0. HObj r0 \<in> set (rs_rules ruleSet) \<Longrightarrow> rule_name r0 = Some n0 \<Longrightarrow>
         \<exists>ex. mapGet nested (norm n0) = Some ex \<and> equalWithoutName ex r0"
    by blast+
  have reg: "\<exists>ex. mapGet m' (norm n0) = Some ex \<and> equalWithoutName ex r0"
    if occ: "occursIn r0 (HObj (RuleSetObj ruleSet) # rules)" and nm: "rule_name r0 = Some n0"
    for r0 n0
  proof (cases "HObj r0 \<in> set (rs_rules ruleSet)")
    case True
    from regn [OF True nm] obtain ex0 where g: "mapGet nested (norm n0) = Some ex0"
      and e0: "equalWithoutName ex0 r0" by blast
    from keyed_entry [OF kn g] obtain n' where v: "ex0 \<in> set (mapValues nested)"
      and nm': "rule_name ex0 = Some n'" and k: "norm n' = norm n0" by blast
    from addRules_registers [OF a v nm'] k obtain ex
      where "mapGet m1 (norm n0) = Some ex" "equalWithoutName ex ex0" by auto
    with ih e0 show ?thesis by (blast intro: equalWithoutName_trans)
  next
    case False
    with occ have "occursIn r0 rules" by simp
    with ih nm show ?thesis by blast
  qed
  show ?case
    using ih addRules_preserves [OF a] reg by blast
qed

text \<open>
  C3. Take any sequence of registrations that has succeeded, with the registry \<open>m\<close>, and in which
  a named rule \<open>r0\<close> occurs, as an entry or inside a rule set. Registering after it a named rule
  \<open>r\<close> whose name equals the name of \<open>r0\<close> under \<^verbatim>\<open>normalizeName\<close> (which makes the
  comparison case-insensitive) succeeds and leaves the registry as it is when \<open>r\<close> and \<open>r0\<close> are
  equal without their names; when they differ it raises the naming conflict that carries the name
  of the rule being registered. The same holds when \<open>r\<close> arrives inside a rule set.
\<close>

theorem extractNamedRules_repeated_name:
  assumes "extractNamedRules norm rs m0 = Inr m"
    and "occursIn r0 rs"
    and "rule_name r0 = Some n0"
    and "rule_name r = Some n"
    and "norm n = norm n0"
  shows "extractNamedRules norm (rs @ [HObj (RuleObj r)]) m0 =
           (if r0\<lparr>rule_name := None\<rparr> = r\<lparr>rule_name := None\<rparr> then Inr m
            else Inl (RuleNameConflict n))
       \<and> extractNamedRules norm
            (rs @ [HObj (RuleSetObj \<lparr>rs_rules = [HObj r], rs_condition = c\<rparr>)]) m0 =
           (if r0\<lparr>rule_name := None\<rparr> = r\<lparr>rule_name := None\<rparr> then Inr m
            else Inl (RuleNameConflict n))"
proof -
  from extractNamedRules_facts [OF assms(1)] assms(2,3) obtain existing
    where g: "mapGet m (norm n0) = Some existing" and e: "equalWithoutName existing r0"
    by blast
  from g assms(5) have g': "mapGet m (norm n) = Some existing"
    by simp
  from e have same: "(existing\<lparr>rule_name := None\<rparr> = r\<lparr>rule_name := None\<rparr>) =
      (r0\<lparr>rule_name := None\<rparr> = r\<lparr>rule_name := None\<rparr>)"
    by (simp add: equalWithoutName_def)
  have one: "addRules norm [r] m =
      (if r0\<lparr>rule_name := None\<rparr> = r\<lparr>rule_name := None\<rparr> then Inr m
       else Inl (RuleNameConflict n))"
    using addRules_registered [where norm = norm, OF assms(4) g'] same by simp
  have nested: "extractNamedRulesOfSet norm [HObj r] [] = Inr [(norm n, r)]"
    using assms(4) by (simp add: namedOnly_def mapHas_def mapGet_def mapSet_def)
  have "extractNamedRules norm [HObj (RuleObj r)] m =
      (if r0\<lparr>rule_name := None\<rparr> = r\<lparr>rule_name := None\<rparr> then Inr m
       else Inl (RuleNameConflict n))"
    using assms(4) one by (simp add: namedOnly_def del: addRules.simps)
  moreover have "extractNamedRules norm
      [HObj (RuleSetObj \<lparr>rs_rules = [HObj r], rs_condition = c\<rparr>)] m =
      (if r0\<lparr>rule_name := None\<rparr> = r\<lparr>rule_name := None\<rparr> then Inr m
       else Inl (RuleNameConflict n))"
    using nested one by (simp add: mapValues_def del: addRules.simps extractNamedRulesOfSet.simps)
  ultimately show ?thesis
    using assms(1) by (simp add: extractNamedRules_append)
qed

theorem extractNamedRules_repeated_name_witness:
  "extractNamedRules toLowerCase
      ([HObj (RuleObj (spamRule ''Spam'' 1))] @ [HObj (RuleObj (spamRule ''SPAM'' 1))]) [] =
     Inr [(''spam'', spamRule ''Spam'' 1)]
   \<and> extractNamedRules toLowerCase
      ([HObj (RuleObj (spamRule ''Spam'' 1))] @ [HObj (RuleObj (spamRule ''SPAM'' 2))]) [] =
     Inl (RuleNameConflict ''SPAM'')
   \<and> extractNamedRules toLowerCase
      ([HObj (RuleObj (spamRule ''Spam'' 1))] @
       [HObj (RuleSetObj \<lparr>rs_rules = [HObj (spamRule ''SPAM'' 2)], rs_condition = None\<rparr>)]) [] =
     Inl (RuleNameConflict ''SPAM'')
   \<and> extractNamedRules toLowerCase
      ([HObj (RuleSetObj \<lparr>rs_rules = [HObj (spamRule ''Spam'' 1)], rs_condition = None\<rparr>)] @
       [HObj (RuleObj (spamRule ''SPAM'' 2))]) [] =
     Inl (RuleNameConflict ''SPAM'')"
proof -
  have l1: "toLowerCase ''Spam'' = ''spam''" by code_simp
  have l2: "toLowerCase ''SPAM'' = ''spam''" by code_simp
  have prior: "extractNamedRules toLowerCase [HObj (RuleObj (spamRule ''Spam'' 1))] [] =
      Inr [(''spam'', spamRule ''Spam'' 1)]"
    by (simp add: namedOnly_def spamRule_def mapHas_def mapGet_def mapSet_def l1)
  have priorSet: "extractNamedRules toLowerCase
      [HObj (RuleSetObj \<lparr>rs_rules = [HObj (spamRule ''Spam'' 1)], rs_condition = None\<rparr>)] [] =
      Inr [(''spam'', spamRule ''Spam'' 1)]"
    by (simp add: namedOnly_def spamRule_def mapHas_def mapGet_def mapSet_def mapValues_def l1)
  have occ: "occursIn (spamRule ''Spam'' 1) [HObj (RuleObj (spamRule ''Spam'' 1))]"
    by simp
  have occSet: "occursIn (spamRule ''Spam'' 1)
      [HObj (RuleSetObj \<lparr>rs_rules = [HObj (spamRule ''Spam'' 1)], rs_condition = None\<rparr>)]"
    by simp
  have named0: "rule_name (spamRule ''Spam'' 1) = Some ''Spam''"
    and named1: "rule_name (spamRule ''SPAM'' 1) = Some ''SPAM''"
    and named2: "rule_name (spamRule ''SPAM'' 2) = Some ''SPAM''"
    by (simp_all add: spamRule_def)
  have same: "toLowerCase ''SPAM'' = toLowerCase ''Spam''"
    by (simp add: l1 l2)
  show ?thesis
    using extractNamedRules_repeated_name [OF prior occ named0 named1 same]
      extractNamedRules_repeated_name [OF prior occ named0 named2 same, of None]
      extractNamedRules_repeated_name [OF priorSet occSet named0 named2 same]
    by (simp add: spamRule_def)
qed

subsection \<open>Named filters\<close>

text \<open>
  C4, the code at the failing input. A hydrated document whose
  \<^verbatim>\<open>filterCriteriaDefaults.authorIs\<close> holds one criteria named \<^verbatim>\<open>mods\<close> and which has
  one run (without checks) is refused with the duplicate-name error: the defaults of the document
  are read once before the loop over the runs and once more for every run. With no run the
  same document is accepted. A document without defaults in which two checks carry the same
  named criteria, structurally identical, is refused as well.
\<close>

theorem extractNamedFilters_defaults_with_run:
  "extractNamedFilters (docDefaultsNamed [runHydratedOf ''Run1'' []]) [] [] =
     Inl (FilterNameConflict ''authorIs'' ''mods'')
   \<and> extractNamedFilters (docDefaultsNamed []) [] [] =
     Inr ([(''mods'', modsCriteria ''mods'')], [])
   \<and> extractNamedFilters
       (docOfHydratedRuns
          [runHydratedOf ''Run1''
             [checkWithAuthorIs ''a'' (Some (FilterArray [CritNamed (modsCriteria ''mods'')])),
              checkWithAuthorIs ''b'' (Some (FilterArray [CritNamed (modsCriteria ''mods'')]))]])
       [] [] =
     Inl (FilterNameConflict ''authorIs'' ''mods'')"
proof -
  have l: "toLowerCase ''mods'' = ''mods''" by code_simp
  show ?thesis
    by (simp add: extractNamedFilters_def filtersOfRun_def filtersOfCheck_def parseAuthorIs_def
        parseItemIs_def parseFilterJson_def addToNamedFilter_def defaultsAuthorIs_def
        defaultsItemIs_def docDefaultsNamed_def docOfHydratedRuns_def runHydratedOf_def
        checkWithAuthorIs_def modsCriteria_def listOrEmpty_def mapHas_def mapSet_def l)
qed

text \<open>
  C5, the code at the failing input. The criteria named \<^verbatim>\<open>Mods\<close> of a check is registered
  by \<^verbatim>\<open>extractNamedFilters\<close> under the key \<^verbatim>\<open>mods\<close>. A reference written
  \<^verbatim>\<open>Mods\<close>, as in the declaration, passes the test of \<^verbatim>\<open>has\<close> and is then replaced
  by \<^verbatim>\<open>undefined\<close>; only the reference in lower case is replaced by the criteria. A
  reference to a name that is not registered raises the error that names it.
\<close>

theorem insertNameFilters_reference_by_declared_name:
  "extractNamedFilters
       (docOfHydratedRuns
          [runHydratedOf ''Run1''
             [checkWithAuthorIs ''a'' (Some (FilterArray [CritNamed (modsCriteria ''Mods'')]))]])
       [] [] =
     Inr ([(''mods'', modsCriteria ''Mods'')], [])
   \<and> insertNameFilters [(''mods'', modsCriteria ''Mods'')] [] (referTo ''Mods'') =
     Inr \<lparr>authorIsStructured = Some (FilterArray [None]), itemIsStructured = None\<rparr>
   \<and> insertNameFilters [(''mods'', modsCriteria ''Mods'')] [] (referTo ''mods'') =
     Inr \<lparr>authorIsStructured = Some (FilterArray [Some (modsCriteria ''Mods'')]),
          itemIsStructured = None\<rparr>
   \<and> insertNameFilters [(''mods'', modsCriteria ''Mods'')] [] (referTo ''ghost'') =
     Inl (NoNamedCriteria ''authorIs'' ''ghost'')"
proof -
  have l1: "toLowerCase ''Mods'' = ''mods''" by code_simp
  have l2: "toLowerCase ''mods'' = ''mods''" by code_simp
  have l3: "toLowerCase ''ghost'' = ''ghost''" by code_simp
  show ?thesis
    by (simp add: extractNamedFilters_def filtersOfRun_def filtersOfCheck_def parseAuthorIs_def
        parseItemIs_def parseFilterJson_def addToNamedFilter_def defaultsAuthorIs_def
        defaultsItemIs_def docOfHydratedRuns_def runHydratedOf_def checkWithAuthorIs_def
        modsCriteria_def listOrEmpty_def mapHas_def mapSet_def mapGet_def insertNameFilters_def
        resolveFilter_def getNamedOrReturn_def referTo_def l1 l2 l3)
qed

lemma getNamedOrReturn_unregistered:
  "\<not> mapHas namedFilters (toLowerCase s) \<Longrightarrow>
   getNamedOrReturn namedFilters filterName (CritStr s) = Inl (NoNamedCriteria filterName s)"
  by (simp add: getNamedOrReturn_def)

lemma getNamedOrReturn_inline:
  "getNamedOrReturn namedFilters filterName (CritNamed nc) = Inr (Some nc)"
  "getNamedOrReturn namedFilters filterName (CritAnon c) = Inr (Some \<lparr>nc_name = None, criteria = c\<rparr>)"
  by (simp_all add: getNamedOrReturn_def)


end
